theory Spec2Isabelle
  imports Main "HOL-Library.AList"
begin

section \<open>The SQL user-provisioning plugin (lib/plugin-mssql.js)\<close>

text \<open>
  The plugin maps SCIM user and group operations onto SQL statements over the table
  \<^verbatim>\<open>[User](UserID, Enabled, Password, FirstName, MiddleName, LastName, Email, MobilePhone)\<close>.
  Request data (the filter descriptor, the SCIM user object, the request context, the
  rows of a result set) are JSON-like trees and are used by value. The connection
  configuration is an object graph that the handlers copy and then update in place, so
  it lives in an explicit store of objects (see the section on the store).
  Logging calls are not modelled; \<^verbatim>\<open>baseEntity\<close> and \<^verbatim>\<open>attributes\<close> are only
  logged and are left out of the handler signatures.
\<close>

subsection \<open>JavaScript values\<close>

text \<open>
  Numbers are IEEE doubles and are left out: the SCIM attributes the plugin handles are
  strings and booleans. A JavaScript string is a \<^typ>\<open>string\<close>; the plugin only
  concatenates strings, compares them with ASCII literals and splits them.
\<close>

datatype jsval =
    Undefined
  | Null
  | Bool bool
  | Str string
  | Arr "jsval list"
  | Obj "(string \<times> jsval) list"

type_synonym jsobj = "(string \<times> jsval) list"

text \<open>An exception is a value: the constructor is the JavaScript class, the string its message.\<close>

datatype error = Error string | TypeError string | RangeError string

fun message :: "error \<Rightarrow> string" where
  "message (Error m) = m"
| "message (TypeError m) = m"
| "message (RangeError m) = m"

definition ebind :: "error + 'a \<Rightarrow> ('a \<Rightarrow> error + 'b) \<Rightarrow> error + 'b" where
  "ebind m f = (case m of Inl e \<Rightarrow> Inl e | Inr x \<Rightarrow> f x)"

text \<open>\<^verbatim>\<open>if (v)\<close>, \<^verbatim>\<open>!v\<close>, \<^verbatim>\<open>v ? a : b\<close>: the falsy values are undefined, null, false and the empty string.\<close>

fun truthy :: "jsval \<Rightarrow> bool" where
  "truthy Undefined = False"
| "truthy Null = False"
| "truthy (Bool b) = b"
| "truthy (Str s) = (s \<noteq> [])"
| "truthy (Arr xs) = True"
| "truthy (Obj kvs) = True"

text \<open>Joining with a separator, as \<^verbatim>\<open>Array.prototype.join\<close> does.\<close>

fun join :: "string \<Rightarrow> string list \<Rightarrow> string" where
  "join sep [] = []"
| "join sep [x] = x"
| "join sep (x # y # ys) = x @ sep @ join sep (y # ys)"

text \<open>
  The string conversion of a template literal \<^verbatim>\<open>`${v}`\<close>: an array is its elements
  joined by commas with undefined and null elements empty, a plain object is
  \<^verbatim>\<open>[object Object]\<close>.
\<close>

fun toString :: "jsval \<Rightarrow> string" where
  "toString Undefined = ''undefined''"
| "toString Null = ''null''"
| "toString (Bool b) = (if b then ''true'' else ''false'')"
| "toString (Str s) = s"
| "toString (Arr xs) =
     join '','' (map (\<lambda>x. if x = Undefined \<or> x = Null then [] else toString x) xs)"
| "toString (Obj kvs) = ''[object Object]''"

text \<open>\<^verbatim>\<open>`'${v}'`\<close>: the value between single quotes, with nothing escaped.\<close>

definition quoted :: "jsval \<Rightarrow> string" where
  "quoted v = [CHR 0x27] @ toString v @ [CHR 0x27]"

text \<open>Reading a property of an object: a missing key reads as undefined.\<close>

definition property :: "jsobj \<Rightarrow> string \<Rightarrow> jsval" where
  "property kvs k = (case map_of kvs k of None \<Rightarrow> Undefined | Some v \<Rightarrow> v)"

text \<open>
  \<^verbatim>\<open>v.k\<close> on any value: undefined and null throw. None of the property names the plugin
  reads is a property of a string, a boolean or an array, so they read as undefined there.
\<close>

fun get :: "jsval \<Rightarrow> string \<Rightarrow> error + jsval" where
  "get Undefined k =
     Inl (TypeError (''Cannot read properties of undefined (reading '' @ quoted (Str k) @ '')''))"
| "get Null k =
     Inl (TypeError (''Cannot read properties of null (reading '' @ quoted (Str k) @ '')''))"
| "get (Obj kvs) k = Inr (property kvs k)"
| "get v k = Inr Undefined"

text \<open>\<^verbatim>\<open>v?.k\<close>: optional chaining reads undefined where \<^verbatim>\<open>v.k\<close> would throw.\<close>

fun opt_get :: "jsval \<Rightarrow> string \<Rightarrow> jsval" where
  "opt_get (Obj kvs) k = property kvs k"
| "opt_get v k = Undefined"

text \<open>\<^verbatim>\<open>String.prototype.split\<close> with a one-character separator: never the empty list.\<close>

fun split :: "char \<Rightarrow> string \<Rightarrow> string list" where
  "split c [] = [[]]"
| "split c (x # xs) =
     (if x = c then [] # split c xs
      else (case split c xs of [] \<Rightarrow> [[x]] | w # ws \<Rightarrow> (x # w) # ws))"

text \<open>An element of an array by index, undefined (here \<open>None\<close>) past the end.\<close>

fun at_index :: "'a list \<Rightarrow> nat \<Rightarrow> 'a option" where
  "at_index [] n = None"
| "at_index (x # xs) 0 = Some x"
| "at_index (x # xs) (Suc n) = at_index xs n"

subsection \<open>getUsers: the filter dispatch (lines 82-102)\<close>

text \<open>The filter descriptor \<^verbatim>\<open>getObj\<close>; \<^verbatim>\<open>startIndex\<close> and \<^verbatim>\<open>count\<close> are not read by the plugin.\<close>

record getObj =
  attribute :: jsval
  operator :: jsval
  "value" :: jsval
  rawFilter :: jsval

definition getUsers_sqlQuery :: "getObj \<Rightarrow> error + string" where
  "getUsers_sqlQuery g =
     ebind
       (if truthy (operator g) then
          (if operator g = Str ''eq'' \<and>
              attribute g \<in> set [Str ''id'', Str ''userName'', Str ''externalId'']
           then Inr (''select * from [User] where UserID = '' @ quoted (value g))
           else if operator g = Str ''eq'' \<and> attribute g = Str ''group.value''
           then Inl (Error (''getUsers error: not supporting groups member of user filtering: ''
                            @ toString (rawFilter g)))
           else Inl (Error (''getUsers error: not supporting simpel filtering: ''
                            @ toString (rawFilter g))))
        else if truthy (rawFilter g)
        then Inl (Error (''getUsers not error: supporting advanced filtering: ''
                         @ toString (rawFilter g)))
        else Inr ''select * from [User]'')
       (\<lambda>sqlQuery.
          if sqlQuery = []
          then Inl (Error ''getUsers error: mandatory if-else logic not fully implemented'')
          else Inr sqlQuery)"

subsection \<open>getUsers: a row as a SCIM user (lines 134-149)\<close>

text \<open>
  The columns of the table, each field the \<^verbatim>\<open>.value\<close> of the column in a row of the
  result set: a string, or null for SQL NULL. The \<^verbatim>\<open>insert\<close> object of createUser has
  the same eight keys and uses the same record.
\<close>

record User_row =
  UserID :: jsval
  Enabled :: jsval
  Password :: jsval
  FirstName :: jsval
  MiddleName :: jsval
  LastName :: jsval
  Email :: jsval
  MobilePhone :: jsval

definition or_undefined :: "jsval \<Rightarrow> jsval" where
  "or_undefined v = (if truthy v then v else Undefined)"

definition scimUser :: "User_row \<Rightarrow> jsval" where
  "scimUser row = Obj
     [(''id'', or_undefined (UserID row)),
      (''userName'', or_undefined (UserID row)),
      (''externalId'', or_undefined (UserID row)),
      (''active'', Bool (Enabled row = Str ''true'' \<or> False)),
      (''name'', Obj
         [(''givenName'', or_undefined (FirstName row)),
          (''middleName'', or_undefined (MiddleName row)),
          (''familyName'', or_undefined (LastName row))]),
      (''phoneNumbers'',
         if truthy (MobilePhone row)
         then Arr [Obj [(''type'', Str ''other''), (''value'', MobilePhone row)]]
         else Undefined),
      (''emails'',
         if truthy (Email row)
         then Arr [Obj [(''type'', Str ''other''), (''value'', Email row)]]
         else Undefined)]"

definition getUsers_result :: "User_row list \<Rightarrow> jsval" where
  "getUsers_result rows = Obj [(''Resources'', Arr (map scimUser rows)), (''totalResults'', Null)]"

text \<open>Reading a path of keys from a value, undefined as soon as a key is missing.\<close>

fun path :: "jsval \<Rightarrow> string list \<Rightarrow> jsval" where
  "path v [] = v"
| "path v (k # ks) = path (opt_get v k) ks"

subsection \<open>createUser: the insert statement (lines 171-184 and 202-203)\<close>

text \<open>
  \<^verbatim>\<open>userObj\<close> is the object the gateway passes. The handler first gives it empty
  \<^verbatim>\<open>name\<close>, \<^verbatim>\<open>emails\<close> and \<^verbatim>\<open>phoneNumbers\<close> containers where they are missing, then
  builds the \<^verbatim>\<open>insert\<close> object, key by key in the order of the source; reading
  \<^verbatim>\<open>.other.value\<close> throws a TypeError when the container has no \<^verbatim>\<open>other\<close> entry.
\<close>

definition sql_value :: "jsval \<Rightarrow> jsval" where
  \<comment> \<open>\<^verbatim>\<open>(v) ? `'${v}'` : null\<close>\<close>
  "sql_value v = (if truthy v then Str (quoted v) else Null)"

definition with_containers :: "jsobj \<Rightarrow> jsobj" where
  \<comment> \<open>lines 171-173, and the same three lines at 276-278 and 393-395\<close>
  "with_containers obj0 =
     (let obj1 = (if \<not> truthy (property obj0 ''name'')
                  then AList.update ''name'' (Obj []) obj0 else obj0);
          obj2 = (if \<not> truthy (property obj1 ''emails'')
                  then AList.update ''emails'' (Obj [(''other'', Obj [])]) obj1 else obj1)
      in (if \<not> truthy (property obj2 ''phoneNumbers'')
          then AList.update ''phoneNumbers'' (Obj [(''other'', Obj [])]) obj2 else obj2))"

definition other_value :: "jsobj \<Rightarrow> string \<Rightarrow> error + jsval" where
  \<comment> \<open>\<^verbatim>\<open>obj.<container>.other.value\<close>\<close>
  "other_value obj container =
     ebind (get (property obj container) ''other'') (\<lambda>other. get other ''value'')"

definition createUser_insert :: "jsobj \<Rightarrow> error + User_row" where
  "createUser_insert userObj0 =
     (let userObj = with_containers userObj0 in
      ebind (get (property userObj ''name'') ''givenName'') (\<lambda>givenName.
      ebind (get (property userObj ''name'') ''middleName'') (\<lambda>middleName.
      ebind (get (property userObj ''name'') ''familyName'') (\<lambda>familyName.
      ebind (other_value userObj ''phoneNumbers'') (\<lambda>phone.
      ebind (other_value userObj ''emails'') (\<lambda>email.
      Inr \<lparr> UserID = Str (quoted (property userObj ''externalId'')),
            Enabled = (if truthy (property userObj ''active'')
                       then Str (quoted (property userObj ''active''))
                       else Str (quoted (Str ''false''))),
            Password = sql_value (property userObj ''password''),
            FirstName = sql_value givenName,
            MiddleName = sql_value middleName,
            LastName = sql_value familyName,
            Email = sql_value email,
            MobilePhone = sql_value phone \<rparr>))))))"

text \<open>The line break and the indentation inside the two-line template literals.\<close>

definition line_break :: string where
  "line_break = CHR 0x0A # replicate 16 CHR '' ''"

definition createUser_sqlQuery :: "User_row \<Rightarrow> string" where
  "createUser_sqlQuery insert' =
     ''insert into [User] (UserID, Enabled, Password, FirstName, MiddleName, LastName, Email, MobilePhone)''
     @ line_break @ ''values ('' @ toString (UserID insert') @ '', '' @ toString (Enabled insert')
     @ '', '' @ toString (Password insert') @ '', '' @ toString (FirstName insert')
     @ '', '' @ toString (MiddleName insert') @ '', '' @ toString (LastName insert')
     @ '', '' @ toString (Email insert') @ '', '' @ toString (MobilePhone insert') @ '')''"

subsection \<open>modifyUser: the update statement (lines 276-308 and 326)\<close>

definition set_clause :: "string \<Rightarrow> jsval \<Rightarrow> string" where
  \<comment> \<open>\<^verbatim>\<open>if (v !== undefined) { if (v === '') sql += 'Col=null,' else sql += `Col='${v}',` }\<close>\<close>
  "set_clause col v =
     (if v \<noteq> Undefined
      then (if v = Str [] then col @ ''=null,'' else col @ ''='' @ quoted v @ '','')
      else [])"

definition modifyUser_sql :: "jsobj \<Rightarrow> error + string" where
  "modifyUser_sql attrObj0 =
     (let attrObj = with_containers attrObj0;
          sql0 = [];
          sql1 = (if property attrObj ''active'' \<noteq> Undefined
                  then sql0 @ ''Enabled='' @ quoted (property attrObj ''active'') @ '',''
                  else sql0);
          sql2 = sql1 @ set_clause ''Password'' (property attrObj ''password'')
      in
      ebind (get (property attrObj ''name'') ''givenName'') (\<lambda>givenName.
      let sql3 = sql2 @ set_clause ''FirstName'' givenName in
      ebind (get (property attrObj ''name'') ''middleName'') (\<lambda>middleName.
      let sql4 = sql3 @ set_clause ''MiddleName'' middleName in
      ebind (get (property attrObj ''name'') ''familyName'') (\<lambda>familyName.
      let sql5 = sql4 @ set_clause ''LastName'' familyName in
      ebind (other_value attrObj ''phoneNumbers'') (\<lambda>phone.
      let sql6 = sql5 @ set_clause ''MobilePhone'' phone in
      ebind (other_value attrObj ''emails'') (\<lambda>email.
      let sql7 = sql6 @ set_clause ''Email'' email in
      Inr (butlast sql7)))))))"

definition modifyUser_sqlQuery :: "string \<Rightarrow> jsval \<Rightarrow> string" where
  "modifyUser_sqlQuery sql id' = ''update [User] set '' @ sql @ '' where UserID like '' @ quoted id'"

subsection \<open>deleteUser and createGroup: the statements (lines 248, 397-401, 419-420)\<close>

definition deleteUser_sqlQuery :: "jsval \<Rightarrow> string" where
  "deleteUser_sqlQuery id' = ''delete from [User] where UserID = '' @ quoted id'"

record Group_insert =
  GroupID :: jsval
  DisplayName :: jsval
  Members :: jsval

definition createGroup_insert :: "jsobj \<Rightarrow> Group_insert" where
  "createGroup_insert groupObj =
     \<lparr> GroupID = Str (quoted (property groupObj ''externalId'')),
       DisplayName = sql_value (property groupObj ''displayName''),
       Members = (if truthy (property groupObj ''Memberse'')
                  then Str (quoted (property groupObj ''members'')) else Null) \<rparr>"

definition createGroup_sqlQuery :: "Group_insert \<Rightarrow> string" where
  "createGroup_sqlQuery insert' =
     ''insert into [Group] (GroupID, DisplayName)'' @ line_break @ ''values (''
     @ toString (GroupID insert') @ '', '' @ toString (DisplayName insert') @ '')''"

subsection \<open>getCtxAuth (lines 468-475)\<close>

text \<open>
  \<^verbatim>\<open>Buffer.from(t, 'base64').toString()\<close> belongs to the runtime and is the parameter
  \<open>decoder\<close>. The two results are strings or undefined: \<open>None\<close> is undefined.
\<close>

definition ctx_authorization :: "jsval \<Rightarrow> jsval" where
  \<comment> \<open>\<^verbatim>\<open>ctx?.request?.header?.authorization\<close>\<close>
  "ctx_authorization ctx = opt_get (opt_get (opt_get ctx ''request'') ''header'') ''authorization''"

definition getCtxAuth :: "(string \<Rightarrow> string) \<Rightarrow> jsval \<Rightarrow> error + (string option \<times> string option)" where
  "getCtxAuth decoder ctx =
     (if \<not> truthy (ctx_authorization ctx) then Inr (None, None)
      else
        (case ctx_authorization ctx of
           Str authorization \<Rightarrow>
             (let parts = split CHR '' '' authorization;
                  authType = at_index parts 0;
                  authToken = at_index parts 1
              in ebind
                   (if authType = Some ''Basic''
                    then (case authToken of
                            None \<Rightarrow> Inl (TypeError
                              ''The first argument must be of type string or an instance of Buffer, ArrayBuffer, or Array or an Array-like Object. Received undefined'')
                          | Some token \<Rightarrow>
                              (let decoded = split CHR '':'' (decoder token)
                               in Inr (at_index decoded 0, at_index decoded 1)))
                    else Inr (None, None))
                   (\<lambda>(username, password).
                      if username \<noteq> None \<and> username \<noteq> Some []
                      then Inr (username, password)
                      else Inr (None, authToken)))
         | _ \<Rightarrow> Inl (TypeError ''ctx.request.header.authorization.split is not a function'')))"

text \<open>
  RFC 4648 base64 decoding of a well-formed token, to run the decoder on examples:
  characters outside the alphabet (the padding) end the input.
\<close>

definition base64_alphabet :: string where
  "base64_alphabet = ''ABCDEFGHIJKLMNOPQRSTUVWXYZabcdefghijklmnopqrstuvwxyz0123456789+/''"

fun index_of :: "char \<Rightarrow> string \<Rightarrow> nat option" where
  "index_of c [] = None"
| "index_of c (x # xs) = (if x = c then Some 0 else map_option Suc (index_of c xs))"

fun sextets :: "string \<Rightarrow> nat list" where
  "sextets [] = []"
| "sextets (c # cs) = (case index_of c base64_alphabet of None \<Rightarrow> [] | Some n \<Rightarrow> n # sextets cs)"

fun octets :: "nat list \<Rightarrow> nat list" where
  "octets (a # b # c # d # rest) =
     (a * 4 + b div 16) # ((b mod 16) * 16 + c div 4) # ((c mod 4) * 64 + d) # octets rest"
| "octets [a, b, c] = [a * 4 + b div 16, (b mod 16) * 16 + c div 4]"
| "octets [a, b] = [a * 4 + b div 16]"
| "octets _ = []"

definition base64_decode :: "string \<Rightarrow> string" where
  "base64_decode t = map char_of (octets (sextets t))"

subsection \<open>The store of configuration objects\<close>

text \<open>
  The static configuration \<^verbatim>\<open>config\<close> is shared by all calls, and every handler copies
  \<^verbatim>\<open>config.connection\<close> and assigns to properties of the copy. Whether that touches the
  shared object depends on which objects are shared, so configuration objects live in a
  store: an object is a list of properties at an address, a property holds a primitive
  value or the address of another object, and a new object gets the next free address.
  \<open>HNum\<close> stands for the integers of a configuration, such as a port; arrays do not
  occur in a connection configuration and are left out. Lines 55 to 58, which replace the
  configured password once when the module is loaded, run before any handler and are not
  part of one.
\<close>

type_synonym addr = nat

datatype hval = HUndefined | HNull | HBool bool | HNum int | HStr string | HRef addr

type_synonym hobj = "(string \<times> hval) list"

record store =
  objs :: "addr \<Rightarrow> hobj"
  next_addr :: addr

fun htruthy :: "hval \<Rightarrow> bool" where
  "htruthy HUndefined = False"
| "htruthy HNull = False"
| "htruthy (HBool b) = b"
| "htruthy (HNum n) = (n \<noteq> 0)"
| "htruthy (HStr s) = (s \<noteq> [])"
| "htruthy (HRef a) = True"

text \<open>A computation on the store that returns a value or throws; the store is always returned.\<close>

type_synonym 'a js = "store \<Rightarrow> (error + 'a) \<times> store"

definition sreturn :: "'a \<Rightarrow> 'a js" where
  "sreturn x = (\<lambda>s. (Inr x, s))"

definition sbind :: "'a js \<Rightarrow> ('a \<Rightarrow> 'b js) \<Rightarrow> 'b js" where
  "sbind m f = (\<lambda>s. case m s of (Inl e, s') \<Rightarrow> (Inl e, s') | (Inr x, s') \<Rightarrow> f x s')"

definition of_result :: "error + 'a \<Rightarrow> 'a js" where
  "of_result r = (\<lambda>s. (r, s))"

text \<open>
  \<^verbatim>\<open>v.k\<close>: undefined and null throw, an object gives the property or undefined, any other
  primitive gives undefined.
\<close>

definition obj_read :: "hval \<Rightarrow> string \<Rightarrow> hval js" where
  "obj_read v k = (\<lambda>s.
     (case v of
        HUndefined \<Rightarrow> Inl (TypeError (''Cannot read properties of undefined (reading '' @ quoted (Str k) @ '')''))
      | HNull \<Rightarrow> Inl (TypeError (''Cannot read properties of null (reading '' @ quoted (Str k) @ '')''))
      | HRef a \<Rightarrow> Inr (case map_of (objs s a) k of None \<Rightarrow> HUndefined | Some x \<Rightarrow> x)
      | _ \<Rightarrow> Inr HUndefined, s))"

text \<open>
  \<^verbatim>\<open>v.k = x\<close>: the file is in strict mode, where assigning to a property of undefined,
  null or any other primitive throws; on an object the property is set in place.
\<close>

definition obj_write :: "hval \<Rightarrow> string \<Rightarrow> hval \<Rightarrow> unit js" where
  "obj_write v k x = (\<lambda>s.
     (case v of
        HRef a \<Rightarrow> (Inr (), s\<lparr>objs := (objs s)(a := AList.update k x (objs s a))\<rparr>)
      | HUndefined \<Rightarrow> (Inl (TypeError (''Cannot set properties of undefined (setting '' @ quoted (Str k) @ '')'')), s)
      | HNull \<Rightarrow> (Inl (TypeError (''Cannot set properties of null (setting '' @ quoted (Str k) @ '')'')), s)
      | _ \<Rightarrow> (Inl (TypeError (''Cannot create property '' @ quoted (Str k))), s)))"

text \<open>An object literal: a new object at the next free address.\<close>

definition new_object :: "hobj \<Rightarrow> hval js" where
  "new_object kvs = (\<lambda>s.
     (Inr (HRef (next_addr s)),
      s\<lparr>objs := (objs s)(next_addr s := kvs), next_addr := Suc (next_addr s)\<rparr>))"

text \<open>\<^verbatim>\<open>v.k1.k2\<close>, \<^verbatim>\<open>v.k1.k2 = x\<close>, \<^verbatim>\<open>v.k1.k2.k3 = x\<close> and \<^verbatim>\<open>v.k1.k2.k3\<close>.\<close>

definition obj_read2 :: "hval \<Rightarrow> string \<Rightarrow> string \<Rightarrow> hval js" where
  "obj_read2 v k1 k2 = sbind (obj_read v k1) (\<lambda>o1. obj_read o1 k2)"

definition obj_write2 :: "hval \<Rightarrow> string \<Rightarrow> string \<Rightarrow> hval \<Rightarrow> unit js" where
  "obj_write2 v k1 k2 x = sbind (obj_read v k1) (\<lambda>o1. obj_write o1 k2 x)"

definition obj_write3 :: "hval \<Rightarrow> string \<Rightarrow> string \<Rightarrow> string \<Rightarrow> hval \<Rightarrow> unit js" where
  "obj_write3 v k1 k2 k3 x = sbind (obj_read2 v k1 k2) (\<lambda>o2. obj_write o2 k3 x)"

definition obj_read3 :: "hval \<Rightarrow> string \<Rightarrow> string \<Rightarrow> string \<Rightarrow> hval js" where
  "obj_read3 v k1 k2 k3 = sbind (obj_read2 v k1 k2) (\<lambda>o2. obj_read o2 k3)"

subsection \<open>copyObj\<close>

text \<open>
  Modelled from the spec: \<^verbatim>\<open>scimgateway.copyObj\<close> is defined in lib/scimgateway.js, which
  is not among the sources. The spec calls its result a "mutable copy of static config"
  and says the builder "always operates on a copy": the copy of an object is a new
  object whose properties are the copies of the properties, and the copy of a primitive
  value is the value. The recursion of the runtime is bounded by the call stack:
  \<open>depth\<close> is the number of nested calls the stack allows, and exceeding it throws.
\<close>

fun copy_fields :: "(hval \<Rightarrow> hval js) \<Rightarrow> hobj \<Rightarrow> hobj js" where
  "copy_fields cp [] = sreturn []"
| "copy_fields cp ((k, v) # kvs) =
     sbind (cp v) (\<lambda>v'. sbind (copy_fields cp kvs) (\<lambda>kvs'. sreturn ((k, v') # kvs')))"

primrec copyObj :: "nat \<Rightarrow> hval \<Rightarrow> hval js" where
  "copyObj 0 = (\<lambda>v.
     (case v of
        HRef a \<Rightarrow> of_result (Inl (RangeError ''Maximum call stack size exceeded''))
      | _ \<Rightarrow> sreturn v))"
| "copyObj (Suc depth) = (\<lambda>v.
     (case v of
        HRef a \<Rightarrow> sbind (\<lambda>s. copy_fields (copyObj depth) (objs s a) s) new_object
      | _ \<Rightarrow> sreturn v))"

subsection \<open>The connection configuration of a call (lines 111-119)\<close>

text \<open>
  The same nine lines open every handler that talks to the database (also 186-194,
  232-240, 310-318 and 403-411). \<^verbatim>\<open>config\<close> is the value of the module variable.
\<close>

definition hval_of :: "string option \<Rightarrow> hval" where
  "hval_of x = (case x of None \<Rightarrow> HUndefined | Some str \<Rightarrow> HStr str)"

definition connectionCfg :: "(string \<Rightarrow> string) \<Rightarrow> nat \<Rightarrow> hval \<Rightarrow> jsval \<Rightarrow> hval js" where
  "connectionCfg decoder depth config ctx =
     sbind (obj_read config ''connection'') (\<lambda>connection.
     sbind (copyObj depth connection) (\<lambda>cfg.
     if truthy (ctx_authorization ctx) then
       sbind (sbind (obj_read cfg ''authentication'') (\<lambda>authentication.
                if \<not> htruthy authentication
                then sbind (new_object []) (obj_write cfg ''authentication'')
                else sreturn ())) (\<lambda>_.
       sbind (sbind (obj_read2 cfg ''authentication'' ''type'') (\<lambda>type.
                if \<not> htruthy type
                then obj_write2 cfg ''authentication'' ''type'' (HStr ''default'')
                else sreturn ())) (\<lambda>_.
       sbind (sbind (obj_read2 cfg ''authentication'' ''options'') (\<lambda>options.
                if \<not> htruthy options
                then sbind (new_object []) (obj_write2 cfg ''authentication'' ''options'')
                else sreturn ())) (\<lambda>_.
       sbind (of_result (getCtxAuth decoder ctx)) (\<lambda>(username, password).
       sbind (obj_write3 cfg ''authentication'' ''options'' ''password'' (hval_of password)) (\<lambda>_.
       sbind (if username \<noteq> None \<and> username \<noteq> Some []
              then obj_write3 cfg ''authentication'' ''options'' ''userName'' (hval_of username)
              else sreturn ()) (\<lambda>_.
       sreturn cfg))))))
     else sreturn cfg))"

subsection \<open>The handlers\<close>

text \<open>
  A handler works on the connection it creates through four calls, recorded in the
  order they are made. The database client answers a call in one of three ways: the
  \<^verbatim>\<open>connect\<close> event carries an error, the request callback carries an error, or the
  request callback carries the rows. (A client that never answers leaves the promise
  pending: the handler does not complete, and no outcome stands for it.) The constructor
  \<^verbatim>\<open>new Connection\<close> is taken to accept the configuration.

  A handler returns the rejection or the resolved value of its promise, the calls made on
  the connection, and the store. An error thrown or rejected inside the \<^verbatim>\<open>try\<close> block is
  caught and thrown again with the action's name before its message.
\<close>

datatype event = NewConnection hval | Connect | ExecSql string | Close

datatype db_reply = ConnectError string | RequestError string | RequestDone "User_row list"

type_synonym outcome = "(error + jsval) \<times> event list \<times> store"

definition rethrow :: "string \<Rightarrow> error \<Rightarrow> error" where
  \<comment> \<open>\<^verbatim>\<open>catch (err) { throw new Error(`${action} error: ${err.message}`) }\<close>\<close>
  "rethrow action err = Error (action @ '' error: '' @ message err)"

definition getUsers ::
  "(string \<Rightarrow> string) \<Rightarrow> nat \<Rightarrow> hval \<Rightarrow> getObj \<Rightarrow> jsval \<Rightarrow> db_reply \<Rightarrow> store \<Rightarrow> outcome" where
  "getUsers decoder depth config getObj ctx reply s =
     (case getUsers_sqlQuery getObj of
        Inl e \<Rightarrow> (Inl e, [], s)
      | Inr sqlQuery \<Rightarrow>
          (case connectionCfg decoder depth config ctx s of
             (Inl e, s') \<Rightarrow> (Inl (rethrow ''getUsers'' e), [], s')
           | (Inr cfg, s') \<Rightarrow>
               (case reply of
                  ConnectError m \<Rightarrow>
                    (Inl (rethrow ''getUsers'' (Error (''exploreUsers MSSQL client connect error: '' @ m))),
                     [NewConnection cfg, Connect], s')
                | RequestError m \<Rightarrow>
                    (Inl (rethrow ''getUsers'' (Error (''exploreUsers MSSQL client request: '' @ sqlQuery
                                                        @ '' Error: '' @ m))),
                     [NewConnection cfg, Connect, ExecSql sqlQuery, Close], s')
                | RequestDone rows \<Rightarrow>
                    (Inr (getUsers_result rows),
                     [NewConnection cfg, Connect, ExecSql sqlQuery, Close], s'))))"

definition createUser ::
  "(string \<Rightarrow> string) \<Rightarrow> nat \<Rightarrow> hval \<Rightarrow> jsobj \<Rightarrow> jsval \<Rightarrow> db_reply \<Rightarrow> store \<Rightarrow> outcome" where
  "createUser decoder depth config userObj ctx reply s =
     (case createUser_insert userObj of
        Inl e \<Rightarrow> (Inl (rethrow ''createUser'' e), [], s)
      | Inr insert' \<Rightarrow>
          (case connectionCfg decoder depth config ctx s of
             (Inl e, s') \<Rightarrow> (Inl (rethrow ''createUser'' e), [], s')
           | (Inr cfg, s') \<Rightarrow>
               (case reply of
                  ConnectError m \<Rightarrow>
                    (Inl (rethrow ''createUser'' (Error (''createUser MSSQL client connect error: '' @ m))),
                     [NewConnection cfg, Connect], s')
                | RequestError m \<Rightarrow>
                    (Inl (rethrow ''createUser'' (Error (''createUser MSSQL client request: ''
                            @ createUser_sqlQuery insert' @ '' error: '' @ m))),
                     [NewConnection cfg, Connect, ExecSql (createUser_sqlQuery insert'), Close], s')
                | RequestDone rows \<Rightarrow>
                    (Inr Null,
                     [NewConnection cfg, Connect, ExecSql (createUser_sqlQuery insert'), Close], s'))))"

definition deleteUser ::
  "(string \<Rightarrow> string) \<Rightarrow> nat \<Rightarrow> hval \<Rightarrow> jsval \<Rightarrow> jsval \<Rightarrow> db_reply \<Rightarrow> store \<Rightarrow> outcome" where
  "deleteUser decoder depth config id' ctx reply s =
     (case connectionCfg decoder depth config ctx s of
        (Inl e, s') \<Rightarrow> (Inl (rethrow ''deleteUser'' e), [], s')
      | (Inr cfg, s') \<Rightarrow>
          (case reply of
             ConnectError m \<Rightarrow>
               (Inl (rethrow ''deleteUser'' (Error (''deleteUser MSSQL client connect error: '' @ m))),
                [NewConnection cfg, Connect], s')
           | RequestError m \<Rightarrow>
               (Inl (rethrow ''deleteUser'' (Error (''deleteUser MSSQL client request: ''
                       @ deleteUser_sqlQuery id' @ '' error: '' @ m))),
                [NewConnection cfg, Connect, ExecSql (deleteUser_sqlQuery id'), Close], s')
           | RequestDone rows \<Rightarrow>
               (Inr Null, [NewConnection cfg, Connect, ExecSql (deleteUser_sqlQuery id'), Close], s')))"

definition modifyUser ::
  "(string \<Rightarrow> string) \<Rightarrow> nat \<Rightarrow> hval \<Rightarrow> jsval \<Rightarrow> jsobj \<Rightarrow> jsval \<Rightarrow> db_reply \<Rightarrow> store \<Rightarrow> outcome" where
  "modifyUser decoder depth config id' attrObj ctx reply s =
     (case modifyUser_sql attrObj of
        Inl e \<Rightarrow> (Inl (rethrow ''modifyUser'' e), [], s)
      | Inr sql \<Rightarrow>
          (case connectionCfg decoder depth config ctx s of
             (Inl e, s') \<Rightarrow> (Inl (rethrow ''modifyUser'' e), [], s')
           | (Inr cfg, s') \<Rightarrow>
               (case reply of
                  ConnectError m \<Rightarrow>
                    (Inl (rethrow ''modifyUser'' (Error (''modifyUser MSSQL client connect error: '' @ m))),
                     [NewConnection cfg, Connect], s')
                | RequestError m \<Rightarrow>
                    (Inl (rethrow ''modifyUser'' (Error (''modifyUser MSSQL client request: ''
                            @ modifyUser_sqlQuery sql id' @ '' error: '' @ m))),
                     [NewConnection cfg, Connect, ExecSql (modifyUser_sqlQuery sql id'), Close], s')
                | RequestDone rows \<Rightarrow>
                    (Inr Null,
                     [NewConnection cfg, Connect, ExecSql (modifyUser_sqlQuery sql id'), Close], s'))))"

text \<open>
  getGroups (lines 348-382): every branch of the filter dispatch is empty, and the
  handler creates no connection.
\<close>

definition getGroups :: "getObj \<Rightarrow> store \<Rightarrow> outcome" where
  "getGroups getObj s =
     (case (if truthy (operator getObj) then
              (if operator getObj = Str ''eq'' \<and>
                  attribute getObj \<in> set [Str ''id'', Str ''displayName'', Str ''externalId'']
               then ()
               else if operator getObj = Str ''eq'' \<and> attribute getObj = Str ''members.value''
               then ()
               else ())
            else if truthy (rawFilter getObj) then ()
            else ()) of
        () \<Rightarrow> (Inr (Obj [(''Resources'', Arr [])]), [], s))"

text \<open>
  createGroup (lines 387-441). The three containers it first gives \<^verbatim>\<open>groupObj\<close> are not
  read again.
\<close>

definition createGroup ::
  "(string \<Rightarrow> string) \<Rightarrow> nat \<Rightarrow> hval \<Rightarrow> jsobj \<Rightarrow> jsval \<Rightarrow> db_reply \<Rightarrow> store \<Rightarrow> outcome" where
  "createGroup decoder depth config groupObj ctx reply s =
     (let insert' = createGroup_insert (with_containers groupObj) in
      case connectionCfg decoder depth config ctx s of
        (Inl e, s') \<Rightarrow> (Inl (rethrow ''createGroup'' e), [], s')
      | (Inr cfg, s') \<Rightarrow>
          (case reply of
             ConnectError m \<Rightarrow>
               (Inl (rethrow ''createGroup'' (Error (''createGroup MSSQL client connect error: '' @ m))),
                [NewConnection cfg, Connect], s')
           | RequestError m \<Rightarrow>
               (Inl (rethrow ''createGroup'' (Error (''createGroup MSSQL client request: ''
                       @ createGroup_sqlQuery insert' @ '' error: '' @ m))),
                [NewConnection cfg, Connect, ExecSql (createGroup_sqlQuery insert'), Close], s')
           | RequestDone rows \<Rightarrow>
               (Inr Null, [NewConnection cfg, Connect, ExecSql (createGroup_sqlQuery insert'), Close], s')))"

definition deleteGroup :: "jsval \<Rightarrow> store \<Rightarrow> outcome" where
  "deleteGroup id' s = (Inl (Error (''deleteGroup'' @ '' error: '' @ ''deleteGroup'' @ '' is not supported'')), [], s)"

definition modifyGroup :: "jsval \<Rightarrow> jsobj \<Rightarrow> store \<Rightarrow> outcome" where
  "modifyGroup id' attrObj s = (Inl (Error (''modifyGroup'' @ '' error: '' @ ''modifyGroup'' @ '' is not supported'')), [], s)"

text \<open>The eight entry points the gateway calls.\<close>

datatype call =
    GetUsers getObj jsval
  | CreateUser jsobj jsval
  | DeleteUser jsval jsval
  | ModifyUser jsval jsobj jsval
  | GetGroups getObj
  | CreateGroup jsobj jsval
  | DeleteGroup jsval
  | ModifyGroup jsval jsobj

fun invoke :: "(string \<Rightarrow> string) \<Rightarrow> nat \<Rightarrow> hval \<Rightarrow> call \<Rightarrow> db_reply \<Rightarrow> store \<Rightarrow> outcome" where
  "invoke decoder depth config (GetUsers getObj ctx) reply s = getUsers decoder depth config getObj ctx reply s"
| "invoke decoder depth config (CreateUser userObj ctx) reply s = createUser decoder depth config userObj ctx reply s"
| "invoke decoder depth config (DeleteUser id' ctx) reply s = deleteUser decoder depth config id' ctx reply s"
| "invoke decoder depth config (ModifyUser id' attrObj ctx) reply s = modifyUser decoder depth config id' attrObj ctx reply s"
| "invoke decoder depth config (GetGroups getObj) reply s = getGroups getObj s"
| "invoke decoder depth config (CreateGroup groupObj ctx) reply s = createGroup decoder depth config groupObj ctx reply s"
| "invoke decoder depth config (DeleteGroup id') reply s = deleteGroup id' s"
| "invoke decoder depth config (ModifyGroup id' attrObj) reply s = modifyGroup id' attrObj s"

subsection \<open>The statements in the words of the specification\<close>



definition user_attributes :: "jsobj \<Rightarrow> (string \<times> jsval) list" where
  "user_attributes obj =
     [(''Enabled'', property obj ''active''),
      (''Password'', property obj ''password''),
      (''FirstName'', path (Obj obj) [''name'', ''givenName'']),
      (''MiddleName'', path (Obj obj) [''name'', ''middleName'']),
      (''LastName'', path (Obj obj) [''name'', ''familyName'']),
      (''MobilePhone'', path (Obj obj) [''phoneNumbers'', ''other'', ''value'']),
      (''Email'', path (Obj obj) [''emails'', ''other'', ''value''])]"

definition present :: "string \<times> jsval \<Rightarrow> bool" where
  "present cv = (snd cv \<noteq> Undefined)"

definition assignment :: "string \<times> jsval \<Rightarrow> string" where
  "assignment cv =
     fst cv @ ''='' @ (if snd cv = Str [] \<and> fst cv \<noteq> ''Enabled'' then ''null'' else quoted (snd cv))"

text \<open>A container that is there but has no \<^verbatim>\<open>other\<close> entry: reading \<^verbatim>\<open>.other.value\<close> throws.\<close>

definition no_other :: "jsobj \<Rightarrow> string \<Rightarrow> bool" where
  "no_other obj container =
     (truthy (property obj container) \<and>
      (opt_get (property obj container) ''other'' = Undefined \<or>
       opt_get (property obj container) ''other'' = Null))"

subsection \<open>Objects created during a call\<close>

text \<open>
  The predicates of the frame argument, relative to the first address \<open>n\<close> that was free
  when the call began: a value is fresh when it is not a reference to an older object,
  and the store is closed above \<open>n\<close> when the objects created since hold only fresh
  values. A computation keeps the frame when, from a closed store, it ends in a closed
  store, creates objects only at free addresses and leaves every object below \<open>n\<close> as
  it was; \<open>P\<close> and \<open>Q\<close> are what it needs and what it gives.
\<close>

definition fresh :: "addr \<Rightarrow> store \<Rightarrow> hval \<Rightarrow> bool" where
  "fresh n s v = (case v of HRef a \<Rightarrow> n \<le> a \<and> a < next_addr s | _ \<Rightarrow> True)"

definition fresh_fields :: "addr \<Rightarrow> store \<Rightarrow> hobj \<Rightarrow> bool" where
  "fresh_fields n s kvs = list_all (\<lambda>kv. fresh n s (snd kv)) kvs"

definition closed_above :: "addr \<Rightarrow> store \<Rightarrow> bool" where
  "closed_above n s =
     (n \<le> next_addr s \<and> (\<forall>a. n \<le> a \<and> a < next_addr s \<longrightarrow> fresh_fields n s (objs s a)))"

definition keeps :: "addr \<Rightarrow> (store \<Rightarrow> bool) \<Rightarrow> 'a js \<Rightarrow> ('a \<Rightarrow> store \<Rightarrow> bool) \<Rightarrow> bool" where
  "keeps n P m Q =
     (\<forall>s. closed_above n s \<and> P s \<longrightarrow>
        (case m s of (r, s') \<Rightarrow>
           closed_above n s' \<and> next_addr s \<le> next_addr s' \<and>
           (\<forall>a<n. objs s' a = objs s a) \<and>
           (case r of Inl e \<Rightarrow> True | Inr x \<Rightarrow> Q x s')))"

subsection \<open>A configuration and a request context for the examples\<close>

text \<open>
  The store of the examples holds the static configuration at address 0:
  \<^verbatim>\<open>{connection: {server: 'db', authentication: {type: 'default', options: {userName: 'sa', password: 'secret'}}}}\<close>.
\<close>

definition example_store :: store where
  "example_store =
     \<lparr>objs = (\<lambda>a. [])
        (0 := [(''connection'', HRef 1)],
         1 := [(''server'', HStr ''db''), (''authentication'', HRef 2)],
         2 := [(''type'', HStr ''default''), (''options'', HRef 3)],
         3 := [(''userName'', HStr ''sa''), (''password'', HStr ''secret'')]),
      next_addr = 4\<rparr>"

definition example_ctx :: "string \<Rightarrow> jsval" where
  "example_ctx authorization =
     Obj [(''request'', Obj [(''header'', Obj [(''authorization'', Str authorization)])])]"

section \<open>Properties\<close>

subsection \<open>The filter dispatch of getUsers\<close>

text \<open>
  Claim C1. For every filter descriptor: with no operator and no rawFilter (both falsy)
  the query is the select of all rows of the User table; with operator \<^verbatim>\<open>eq\<close> on
  \<^verbatim>\<open>id\<close>, \<^verbatim>\<open>userName\<close> or \<^verbatim>\<open>externalId\<close> it is the select with
  \<^verbatim>\<open>where UserID = '<value>'\<close>; every other descriptor makes getUsers reject with one
  of the three "not supporting" errors, with no call on a connection and the store
  as it was. A statement the handler executes is the query built from the descriptor.
\<close>

theorem getUsers_filter_dispatch:
  "(\<not> truthy (operator g) \<and> \<not> truthy (rawFilter g) \<longrightarrow>
      getUsers_sqlQuery g = Inr ''select * from [User]'')
   \<and> (operator g = Str ''eq'' \<and> attribute g \<in> {Str ''id'', Str ''userName'', Str ''externalId''} \<longrightarrow>
      getUsers_sqlQuery g = Inr (''select * from [User] where UserID = '' @ quoted (value g)))
   \<and> (\<not> (\<not> truthy (operator g) \<and> \<not> truthy (rawFilter g)) \<and>
       \<not> (operator g = Str ''eq'' \<and> attribute g \<in> {Str ''id'', Str ''userName'', Str ''externalId''}) \<longrightarrow>
      (let msg =
         (if operator g = Str ''eq'' \<and> attribute g = Str ''group.value''
          then ''getUsers error: not supporting groups member of user filtering: ''
          else if truthy (operator g)
          then ''getUsers error: not supporting simpel filtering: ''
          else ''getUsers not error: supporting advanced filtering: '') @ toString (rawFilter g)
       in getUsers_sqlQuery g = Inl (Error msg) \<and>
          getUsers decoder depth config g ctx reply s = (Inl (Error msg), [], s)))
   \<and> (ExecSql q \<in> set (fst (snd (getUsers decoder depth config g ctx reply s))) \<longrightarrow>
      getUsers_sqlQuery g = Inr q)"
proof -
  have "getUsers_sqlQuery g = Inr q"
    if "ExecSql q \<in> set (fst (snd (getUsers decoder depth config g ctx reply s)))"
    using that
    by (cases "connectionCfg decoder depth config ctx s")
       (auto simp add: getUsers_def split: sum.splits db_reply.splits)
  then show ?thesis
    by (auto simp add: getUsers_sqlQuery_def ebind_def getUsers_def quoted_def Let_def)
qed

theorem getUsers_filter_dispatch_witness:
  "getUsers_sqlQuery \<lparr>attribute = Undefined, operator = Undefined, value = Undefined, rawFilter = Undefined\<rparr>
     = Inr ''select * from [User]''
   \<and> getUsers_sqlQuery \<lparr>attribute = Str ''userName'', operator = Str ''eq'', value = Str ''jdoe'',
                          rawFilter = Str ''userName eq jdoe''\<rparr>
     = Inr (''select * from [User] where UserID = 'jdoe'' @ [CHR 0x27])
   \<and> getUsers_sqlQuery \<lparr>attribute = Str ''group.value'', operator = Str ''eq'', value = Str ''g'', rawFilter = Str ''f''\<rparr>
     = Inl (Error ''getUsers error: not supporting groups member of user filtering: f'')
   \<and> getUsers_sqlQuery \<lparr>attribute = Str ''userName'', operator = Str ''co'', value = Str ''g'', rawFilter = Str ''f''\<rparr>
     = Inl (Error ''getUsers error: not supporting simpel filtering: f'')
   \<and> getUsers_sqlQuery \<lparr>attribute = Undefined, operator = Undefined, value = Undefined, rawFilter = Str ''f''\<rparr>
     = Inl (Error ''getUsers not error: supporting advanced filtering: f'')
   \<and> ExecSql ''select * from [User]'' \<in> set (fst (snd (getUsers base64_decode 10 (HRef 0)
         \<lparr>attribute = Undefined, operator = Undefined, value = Undefined, rawFilter = Undefined\<rparr>
         Undefined (RequestDone []) example_store)))"
proof -
  have run: "ExecSql ''select * from [User]'' \<in> set (fst (snd (getUsers base64_decode 10 (HRef 0)
         \<lparr>attribute = Undefined, operator = Undefined, value = Undefined, rawFilter = Undefined\<rparr>
         Undefined (RequestDone []) example_store)))"
    by code_simp
  have "getUsers_sqlQuery \<lparr>attribute = Undefined, operator = Undefined, value = Undefined, rawFilter = Undefined\<rparr>
     = Inr ''select * from [User]''
   \<and> getUsers_sqlQuery \<lparr>attribute = Str ''userName'', operator = Str ''eq'', value = Str ''jdoe'',
                          rawFilter = Str ''userName eq jdoe''\<rparr>
     = Inr (''select * from [User] where UserID = 'jdoe'' @ [CHR 0x27])
   \<and> getUsers_sqlQuery \<lparr>attribute = Str ''group.value'', operator = Str ''eq'', value = Str ''g'', rawFilter = Str ''f''\<rparr>
     = Inl (Error ''getUsers error: not supporting groups member of user filtering: f'')
   \<and> getUsers_sqlQuery \<lparr>attribute = Str ''userName'', operator = Str ''co'', value = Str ''g'', rawFilter = Str ''f''\<rparr>
     = Inl (Error ''getUsers error: not supporting simpel filtering: f'')
   \<and> getUsers_sqlQuery \<lparr>attribute = Undefined, operator = Undefined, value = Undefined, rawFilter = Str ''f''\<rparr>
     = Inl (Error ''getUsers not error: supporting advanced filtering: f'')"
  using getUsers_filter_dispatch [of "\<lparr>attribute = Undefined, operator = Undefined, value = Undefined, rawFilter = Undefined\<rparr>"]
   getUsers_filter_dispatch [of "\<lparr>attribute = Str ''userName'', operator = Str ''eq'', value = Str ''jdoe'',
                          rawFilter = Str ''userName eq jdoe''\<rparr>"]
   getUsers_filter_dispatch [of "\<lparr>attribute = Str ''group.value'', operator = Str ''eq'', value = Str ''g'', rawFilter = Str ''f''\<rparr>"]
   getUsers_filter_dispatch [of "\<lparr>attribute = Str ''userName'', operator = Str ''co'', value = Str ''g'', rawFilter = Str ''f''\<rparr>"]
   getUsers_filter_dispatch [of "\<lparr>attribute = Undefined, operator = Undefined, value = Undefined, rawFilter = Str ''f''\<rparr>"]
    by (simp add: quoted_def Let_def)
  with run show ?thesis by blast
qed

subsection \<open>The group handlers\<close>

text \<open>
  Claim C5. deleteGroup and modifyGroup reject with a "not supported" error for every
  input, and getGroups resolves with an empty \<^verbatim>\<open>Resources\<close> list for every filter
  descriptor; none of the three makes a call on a connection.
\<close>

theorem group_handlers_unsupported:
  "invoke decoder depth config (DeleteGroup id') reply s
     = (Inl (Error ''deleteGroup error: deleteGroup is not supported''), [], s)
   \<and> invoke decoder depth config (ModifyGroup id' attrObj) reply s
     = (Inl (Error ''modifyGroup error: modifyGroup is not supported''), [], s)
   \<and> invoke decoder depth config (GetGroups getObj) reply s
     = (Inr (Obj [(''Resources'', Arr [])]), [], s)"
  by (simp add: deleteGroup_def modifyGroup_def getGroups_def split: unit.split)


subsection \<open>Rows as SCIM users\<close>

text \<open>
  Claim C2, as stated, fails on a row whose UserID is the empty string: the mapper tests
  the value before it copies it, so \<^verbatim>\<open>id\<close> is undefined there and not the UserID.
\<close>

theorem scimUser_empty_UserID_counterexample:
  "opt_get (scimUser \<lparr>UserID = Str [], Enabled = Str ''true'', Password = Null, FirstName = Null,
                        MiddleName = Null, LastName = Null, Email = Null, MobilePhone = Null\<rparr>) ''id''
   \<noteq> UserID \<lparr>UserID = Str [], Enabled = Str ''true'', Password = Null, FirstName = Null,
               MiddleName = Null, LastName = Null, Email = Null, MobilePhone = Null\<rparr>"
  by (simp add: scimUser_def property_def or_undefined_def)

text \<open>
  Claim C2, amended. For every row of a getUsers result, \<^verbatim>\<open>id\<close>, \<^verbatim>\<open>userName\<close> and
  \<^verbatim>\<open>externalId\<close> of the mapped user all equal the row's UserID when that is truthy (a
  non-empty string) and are all undefined when it is null or empty; \<^verbatim>\<open>active\<close> is true
  exactly when Enabled is the string \<^verbatim>\<open>true\<close>; the three name parts are the name columns,
  undefined when the column is null or empty; \<^verbatim>\<open>phoneNumbers\<close> and \<^verbatim>\<open>emails\<close> are
  one-element arrays of type \<^verbatim>\<open>other\<close> when the column is present and undefined
  otherwise; and the handler resolves with the mapped rows in order.
\<close>

theorem scimUser_mapping:
  "(truthy (UserID row) \<longrightarrow>
      path (scimUser row) [''id''] = UserID row \<and>
      path (scimUser row) [''userName''] = UserID row \<and>
      path (scimUser row) [''externalId''] = UserID row)
   \<and> (\<not> truthy (UserID row) \<longrightarrow>
      path (scimUser row) [''id''] = Undefined \<and>
      path (scimUser row) [''userName''] = Undefined \<and>
      path (scimUser row) [''externalId''] = Undefined)
   \<and> path (scimUser row) [''active''] = Bool (Enabled row = Str ''true'')
   \<and> (truthy (FirstName row) \<longrightarrow> path (scimUser row) [''name'', ''givenName''] = FirstName row)
   \<and> (truthy (MiddleName row) \<longrightarrow> path (scimUser row) [''name'', ''middleName''] = MiddleName row)
   \<and> (truthy (LastName row) \<longrightarrow> path (scimUser row) [''name'', ''familyName''] = LastName row)
   \<and> (\<not> truthy (FirstName row) \<longrightarrow>
        path (scimUser row) [''name'', ''givenName''] = Undefined)
   \<and> (\<not> truthy (MiddleName row) \<longrightarrow>
        path (scimUser row) [''name'', ''middleName''] = Undefined)
   \<and> (\<not> truthy (LastName row) \<longrightarrow>
        path (scimUser row) [''name'', ''familyName''] = Undefined)
   \<and> path (scimUser row) [''phoneNumbers''] =
        (if truthy (MobilePhone row)
         then Arr [Obj [(''type'', Str ''other''), (''value'', MobilePhone row)]] else Undefined)
   \<and> path (scimUser row) [''emails''] =
        (if truthy (Email row)
         then Arr [Obj [(''type'', Str ''other''), (''value'', Email row)]] else Undefined)
   \<and> (fst (getUsers decoder depth config getObj ctx (RequestDone rows) s) = Inr res \<longrightarrow>
        res = Obj [(''Resources'', Arr (map scimUser rows)), (''totalResults'', Null)])"
  by (auto simp add: scimUser_def property_def or_undefined_def getUsers_def getUsers_result_def
      split: sum.splits prod.splits)

theorem scimUser_mapping_witness:
  "path (scimUser \<lparr>UserID = Str ''jdoe'', Enabled = Str ''true'', Password = Null,
                    FirstName = Str ''Jane'', MiddleName = Null, LastName = Str [],
                    Email = Str ''j@x.com'', MobilePhone = Null\<rparr>) [''id''] = Str ''jdoe''
   \<and> path (scimUser \<lparr>UserID = Str ''jdoe'', Enabled = Str ''true'', Password = Null,
                    FirstName = Str ''Jane'', MiddleName = Null, LastName = Str [],
                    Email = Str ''j@x.com'', MobilePhone = Null\<rparr>) [''name'', ''givenName''] = Str ''Jane''
   \<and> path (scimUser \<lparr>UserID = Str ''jdoe'', Enabled = Str ''true'', Password = Null,
                    FirstName = Str ''Jane'', MiddleName = Null, LastName = Str [],
                    Email = Str ''j@x.com'', MobilePhone = Null\<rparr>) [''name'', ''middleName''] = Undefined
   \<and> path (scimUser \<lparr>UserID = Str ''jdoe'', Enabled = Str ''true'', Password = Null,
                    FirstName = Str ''Jane'', MiddleName = Null, LastName = Str [],
                    Email = Str ''j@x.com'', MobilePhone = Null\<rparr>) [''name'', ''familyName''] = Undefined
   \<and> path (scimUser \<lparr>UserID = Str ''jdoe'', Enabled = Str ''true'', Password = Null,
                    FirstName = Str ''Jane'', MiddleName = Null, LastName = Str [],
                    Email = Str ''j@x.com'', MobilePhone = Null\<rparr>) [''active''] = Bool True
   \<and> path (scimUser \<lparr>UserID = Str ''jdoe'', Enabled = Str ''true'', Password = Null,
                    FirstName = Str ''Jane'', MiddleName = Null, LastName = Str [],
                    Email = Str ''j@x.com'', MobilePhone = Null\<rparr>) [''emails'']
       = Arr [Obj [(''type'', Str ''other''), (''value'', Str ''j@x.com'')]]
   \<and> path (scimUser \<lparr>UserID = Str ''jdoe'', Enabled = Str ''true'', Password = Null,
                    FirstName = Str ''Jane'', MiddleName = Null, LastName = Str [],
                    Email = Str ''j@x.com'', MobilePhone = Null\<rparr>) [''phoneNumbers''] = Undefined
   \<and> path (scimUser \<lparr>UserID = Null, Enabled = Null, Password = Null,
                    FirstName = Null, MiddleName = Null, LastName = Null,
                    Email = Null, MobilePhone = Null\<rparr>) [''id''] = Undefined
   \<and> path (scimUser \<lparr>UserID = Null, Enabled = Null, Password = Null,
                    FirstName = Null, MiddleName = Null, LastName = Null,
                    Email = Null, MobilePhone = Null\<rparr>) [''active''] = Bool False
   \<and> fst (getUsers base64_decode 10 (HRef 0)
         \<lparr>attribute = Str ''id'', operator = Str ''eq'', value = Str ''jdoe'', rawFilter = Str ''id eq jdoe''\<rparr>
         Undefined
         (RequestDone [\<lparr>UserID = Str ''jdoe'', Enabled = Str ''true'', Password = Null,
                    FirstName = Str ''Jane'', MiddleName = Null, LastName = Str [],
                    Email = Str ''j@x.com'', MobilePhone = Null\<rparr>])
         example_store)
       = Inr (Obj [(''Resources'', Arr (map scimUser
                     [\<lparr>UserID = Str ''jdoe'', Enabled = Str ''true'', Password = Null,
                       FirstName = Str ''Jane'', MiddleName = Null, LastName = Str [],
                       Email = Str ''j@x.com'', MobilePhone = Null\<rparr>])),
                   (''totalResults'', Null)])"
proof -
  have run: "fst (getUsers base64_decode 10 (HRef 0)
         \<lparr>attribute = Str ''id'', operator = Str ''eq'', value = Str ''jdoe'', rawFilter = Str ''id eq jdoe''\<rparr>
         Undefined
         (RequestDone [\<lparr>UserID = Str ''jdoe'', Enabled = Str ''true'', Password = Null,
                    FirstName = Str ''Jane'', MiddleName = Null, LastName = Str [],
                    Email = Str ''j@x.com'', MobilePhone = Null\<rparr>])
         example_store)
       = Inr (getUsers_result [\<lparr>UserID = Str ''jdoe'', Enabled = Str ''true'', Password = Null,
                    FirstName = Str ''Jane'', MiddleName = Null, LastName = Str [],
                    Email = Str ''j@x.com'', MobilePhone = Null\<rparr>])"
    by code_simp
  from run scimUser_mapping [of "\<lparr>UserID = Str ''jdoe'', Enabled = Str ''true'', Password = Null,
                    FirstName = Str ''Jane'', MiddleName = Null, LastName = Str [],
                    Email = Str ''j@x.com'', MobilePhone = Null\<rparr>"
        base64_decode 10 "HRef 0"
        "\<lparr>attribute = Str ''id'', operator = Str ''eq'', value = Str ''jdoe'', rawFilter = Str ''id eq jdoe''\<rparr>"
        Undefined
        "[\<lparr>UserID = Str ''jdoe'', Enabled = Str ''true'', Password = Null,
                    FirstName = Str ''Jane'', MiddleName = Null, LastName = Str [],
                    Email = Str ''j@x.com'', MobilePhone = Null\<rparr>]"
        example_store
        "getUsers_result [\<lparr>UserID = Str ''jdoe'', Enabled = Str ''true'', Password = Null,
                    FirstName = Str ''Jane'', MiddleName = Null, LastName = Str [],
                    Email = Str ''j@x.com'', MobilePhone = Null\<rparr>]"]
     scimUser_mapping [of "\<lparr>UserID = Null, Enabled = Null, Password = Null,
                    FirstName = Null, MiddleName = Null, LastName = Null,
                    Email = Null, MobilePhone = Null\<rparr>"]
  show ?thesis by simp
qed

subsection \<open>The insert statement of createUser\<close>

lemma property_update:
  "property (AList.update k v kvs) k' = (if k' = k then v else property kvs k')"
  by (simp add: property_def update_conv')

lemma property_with_containers:
  "property (with_containers obj) k =
     (if k = ''name'' \<and> \<not> truthy (property obj ''name'') then Obj []
      else if k = ''emails'' \<and> \<not> truthy (property obj ''emails'') then Obj [(''other'', Obj [])]
      else if k = ''phoneNumbers'' \<and> \<not> truthy (property obj ''phoneNumbers'') then Obj [(''other'', Obj [])]
      else property obj k)"
  by (simp add: with_containers_def Let_def property_update)

lemma property_with_containers_other:
  "k \<noteq> ''name'' \<Longrightarrow> k \<noteq> ''emails'' \<Longrightarrow> k \<noteq> ''phoneNumbers'' \<Longrightarrow>
   property (with_containers obj) k = property obj k"
  by (simp add: property_with_containers)

lemma get_truthy: "truthy v \<Longrightarrow> get v k = Inr (opt_get v k)"
  by (cases v) simp_all

lemma opt_get_falsy: "\<not> truthy v \<Longrightarrow> opt_get v k = Undefined"
  by (cases v) simp_all

lemma property_Nil: "property [] k = Undefined"
  by (simp add: property_def)

lemma name_part:
  "get (property (with_containers obj) ''name'') k = Inr (path (Obj obj) [''name'', k])"
  by (cases "truthy (property obj ''name'')")
     (simp_all add: property_with_containers get_truthy opt_get_falsy property_Nil)

lemma other_value_with_containers:
  assumes "c = ''emails'' \<or> c = ''phoneNumbers''"
  shows "other_value (with_containers obj) c =
           (if no_other obj c
            then get (opt_get (property obj c) ''other'') ''value''
            else Inr (path (Obj obj) [c, ''other'', ''value'']))"
proof (cases "truthy (property obj c)")
  case True
  then have "property (with_containers obj) c = property obj c"
    using assms by (auto simp add: property_with_containers)
  with True show ?thesis
    by (cases "opt_get (property obj c) ''other''")
       (simp_all add: other_value_def ebind_def get_truthy no_other_def)
next
  case False
  then have "property (with_containers obj) c = Obj [(''other'', Obj [])]"
    using assms by (auto simp add: property_with_containers)
  with False show ?thesis
    by (simp add: other_value_def ebind_def no_other_def opt_get_falsy property_def)
qed

lemma other_value_error:
  assumes "c = ''emails'' \<or> c = ''phoneNumbers''" and "no_other obj c"
  shows "\<exists>m. other_value (with_containers obj) c = Inl (TypeError m)"
  using assms by (auto simp add: other_value_with_containers no_other_def)


lemma createUser_insert_built:
  assumes "\<not> no_other userObj ''phoneNumbers''" and "\<not> no_other userObj ''emails''"
  shows "createUser_insert userObj = Inr
     \<lparr> UserID = Str (quoted (property userObj ''externalId'')),
       Enabled = (if truthy (property userObj ''active'')
                  then Str (quoted (property userObj ''active''))
                  else Str (quoted (Str ''false''))),
       Password = sql_value (property userObj ''password''),
       FirstName = sql_value (path (Obj userObj) [''name'', ''givenName'']),
       MiddleName = sql_value (path (Obj userObj) [''name'', ''middleName'']),
       LastName = sql_value (path (Obj userObj) [''name'', ''familyName'']),
       Email = sql_value (path (Obj userObj) [''emails'', ''other'', ''value'']),
       MobilePhone = sql_value (path (Obj userObj) [''phoneNumbers'', ''other'', ''value'']) \<rparr>"
  using assms
  by (simp add: createUser_insert_def Let_def name_part other_value_with_containers ebind_def
      property_with_containers_other)

lemma createUser_insert_fails:
  assumes "no_other userObj ''phoneNumbers'' \<or> no_other userObj ''emails''"
  shows "\<exists>m. createUser_insert userObj = Inl (TypeError m)"
proof (cases "no_other userObj ''phoneNumbers''")
  case True
  then obtain m where "other_value (with_containers userObj) ''phoneNumbers'' = Inl (TypeError m)"
    using other_value_error by blast
  then show ?thesis
    by (simp add: createUser_insert_def Let_def name_part ebind_def)
next
  case False
  with assms have "no_other userObj ''emails''" by simp
  then obtain m where "other_value (with_containers userObj) ''emails'' = Inl (TypeError m)"
    using other_value_error by blast
  moreover obtain x where "other_value (with_containers userObj) ''phoneNumbers'' = Inr x"
    using False by (simp add: other_value_with_containers)
  ultimately show ?thesis
    by (simp add: createUser_insert_def Let_def name_part ebind_def)
qed


lemma createUser_executes:
  assumes "ExecSql q \<in> set (fst (snd (createUser decoder depth config userObj ctx reply s)))"
  shows "\<exists>insert'. createUser_insert userObj = Inr insert' \<and> q = createUser_sqlQuery insert'"
  using assms
  by (cases "connectionCfg decoder depth config ctx s")
     (auto simp add: createUser_def split: sum.splits db_reply.splits)




subsection \<open>createUser without an externalId\<close>

text \<open>
  Claim C6. For every createUser input whose \<^verbatim>\<open>externalId\<close> is missing, no validation
  error is raised (the only error is the TypeError of a container without an \<^verbatim>\<open>other\<close>
  entry, and without such a container the insert is built), and the statement built, and
  any statement the handler executes, has the literal \<^verbatim>\<open>'undefined'\<close> as the UserID value.
\<close>

theorem createUser_missing_externalId:
  assumes "map_of userObj ''externalId'' = None"
  shows "(\<not> no_other userObj ''phoneNumbers'' \<and> \<not> no_other userObj ''emails'' \<longrightarrow>
            (\<exists>insert'. createUser_insert userObj = Inr insert'))
         \<and> (createUser_insert userObj = Inr insert' \<longrightarrow>
              UserID insert' = Str (quoted (Str ''undefined'')) \<and>
              (\<exists>values. createUser_sqlQuery insert' =
                 ''insert into [User] (UserID, Enabled, Password, FirstName, MiddleName, LastName, Email, MobilePhone)''
                 @ line_break @ ''values ('undefined', '' @ values))
         \<and> (createUser_insert userObj = Inl e \<longrightarrow>
              (\<exists>m. e = TypeError m) \<and>
              (no_other userObj ''phoneNumbers'' \<or> no_other userObj ''emails''))
         \<and> (ExecSql q \<in> set (fst (snd (createUser decoder depth config userObj ctx reply s))) \<longrightarrow>
              (\<exists>values. q =
                 ''insert into [User] (UserID, Enabled, Password, FirstName, MiddleName, LastName, Email, MobilePhone)''
                 @ line_break @ ''values ('undefined', '' @ values))"
proof -
  from assms have undef: "property userObj ''externalId'' = Undefined"
    by (simp add: property_def)
  have 1: "\<exists>insert'. createUser_insert userObj = Inr insert'"
    if "\<not> no_other userObj ''phoneNumbers''" and "\<not> no_other userObj ''emails''"
    using createUser_insert_built [OF that] by blast
  have shape: "\<not> no_other userObj ''phoneNumbers'' \<and> \<not> no_other userObj ''emails''"
    if "createUser_insert userObj = Inr r" for r
    using that createUser_insert_fails [of userObj] by auto
  have 2: "UserID insert' = Str (quoted (Str ''undefined'')) \<and>
           (\<exists>values. createUser_sqlQuery insert' =
              ''insert into [User] (UserID, Enabled, Password, FirstName, MiddleName, LastName, Email, MobilePhone)''
              @ line_break @ ''values ('undefined', '' @ values)"
    if r: "createUser_insert userObj = Inr insert'"
  proof -
    from shape [OF r] createUser_insert_built [of userObj] r undef
    have u: "UserID insert' = Str (quoted (Str ''undefined''))"
      by (auto simp add: quoted_def)
    then have "createUser_sqlQuery insert' =
              ''insert into [User] (UserID, Enabled, Password, FirstName, MiddleName, LastName, Email, MobilePhone)''
              @ line_break @ ''values ('undefined', '' @
              (toString (Enabled insert')
               @ '', '' @ toString (Password insert') @ '', '' @ toString (FirstName insert')
               @ '', '' @ toString (MiddleName insert') @ '', '' @ toString (LastName insert')
               @ '', '' @ toString (Email insert') @ '', '' @ toString (MobilePhone insert') @ '')'')"
      by (simp add: createUser_sqlQuery_def quoted_def)
    with u show ?thesis by blast
  qed
  have 3: "(\<exists>m. e = TypeError m) \<and>
           (no_other userObj ''phoneNumbers'' \<or> no_other userObj ''emails'')"
    if l: "createUser_insert userObj = Inl e"
  proof -
    have bad: "no_other userObj ''phoneNumbers'' \<or> no_other userObj ''emails''"
      using l createUser_insert_built [of userObj] by auto
    from createUser_insert_fails [OF bad] l show ?thesis
      using bad by auto
  qed
  have 4: "\<exists>values. q =
              ''insert into [User] (UserID, Enabled, Password, FirstName, MiddleName, LastName, Email, MobilePhone)''
              @ line_break @ ''values ('undefined', '' @ values"
    if "ExecSql q \<in> set (fst (snd (createUser decoder depth config userObj ctx reply s)))"
  proof -
    from createUser_executes [OF that] obtain built
      where b: "createUser_insert userObj = Inr built" and q: "q = createUser_sqlQuery built"
      by blast
    from shape [OF b] createUser_insert_built [of userObj] b undef
    have "UserID built = Str (quoted (Str ''undefined''))"
      by (auto simp add: quoted_def)
    then have "createUser_sqlQuery built =
              ''insert into [User] (UserID, Enabled, Password, FirstName, MiddleName, LastName, Email, MobilePhone)''
              @ line_break @ ''values ('undefined', '' @
              (toString (Enabled built)
               @ '', '' @ toString (Password built) @ '', '' @ toString (FirstName built)
               @ '', '' @ toString (MiddleName built) @ '', '' @ toString (LastName built)
               @ '', '' @ toString (Email built) @ '', '' @ toString (MobilePhone built) @ '')'')"
      by (simp add: createUser_sqlQuery_def quoted_def)
    with q show ?thesis by blast
  qed
  from 1 2 3 4 show ?thesis by blast
qed

theorem createUser_missing_externalId_witness:
  "map_of [(''active'', Bool True)] ''externalId'' = None
   \<and> createUser_insert [(''active'', Bool True)]
       = Inr \<lparr>UserID = Str (quoted (Str ''undefined'')), Enabled = Str (quoted (Str ''true'')),
               Password = Null, FirstName = Null, MiddleName = Null, LastName = Null,
               Email = Null, MobilePhone = Null\<rparr>
   \<and> (\<exists>values. createUser_sqlQuery
         \<lparr>UserID = Str (quoted (Str ''undefined'')), Enabled = Str (quoted (Str ''true'')),
          Password = Null, FirstName = Null, MiddleName = Null, LastName = Null,
          Email = Null, MobilePhone = Null\<rparr> =
        ''insert into [User] (UserID, Enabled, Password, FirstName, MiddleName, LastName, Email, MobilePhone)''
        @ line_break @ ''values ('undefined', '' @ values)
   \<and> ExecSql (createUser_sqlQuery
         \<lparr>UserID = Str (quoted (Str ''undefined'')), Enabled = Str (quoted (Str ''true'')),
          Password = Null, FirstName = Null, MiddleName = Null, LastName = Null,
          Email = Null, MobilePhone = Null\<rparr>)
     \<in> set (fst (snd (createUser base64_decode 10 (HRef 0) [(''active'', Bool True)]
         Undefined (RequestDone []) example_store)))"
proof -
  have run: "ExecSql (createUser_sqlQuery
         \<lparr>UserID = Str (quoted (Str ''undefined'')), Enabled = Str (quoted (Str ''true'')),
          Password = Null, FirstName = Null, MiddleName = Null, LastName = Null,
          Email = Null, MobilePhone = Null\<rparr>)
     \<in> set (fst (snd (createUser base64_decode 10 (HRef 0) [(''active'', Bool True)]
         Undefined (RequestDone []) example_store)))"
    by code_simp
  have missing: "map_of [(''active'', Bool True)] ''externalId'' = None"
    by simp
  have built: "createUser_insert [(''active'', Bool True)]
       = Inr \<lparr>UserID = Str (quoted (Str ''undefined'')), Enabled = Str (quoted (Str ''true'')),
               Password = Null, FirstName = Null, MiddleName = Null, LastName = Null,
               Email = Null, MobilePhone = Null\<rparr>"
    by code_simp
  from createUser_missing_externalId [OF missing,
      of "\<lparr>UserID = Str (quoted (Str ''undefined'')), Enabled = Str (quoted (Str ''true'')),
               Password = Null, FirstName = Null, MiddleName = Null, LastName = Null,
               Email = Null, MobilePhone = Null\<rparr>"] built missing run
  show ?thesis by blast
qed

subsection \<open>The update statement of modifyUser\<close>

lemma butlast_separated:
  "butlast (concat (map (\<lambda>x. f x @ [c]) xs)) = join [c] (map f xs)"
proof (induction xs)
  case Nil
  then show ?case by simp
next
  case (Cons x xs)
  show ?case
  proof (cases xs)
    case Nil
    then show ?thesis by simp
  next
    case (Cons y ys)
    then have "concat (map (\<lambda>x. f x @ [c]) xs) \<noteq> []" by simp
    then have "butlast (f x @ [c] @ concat (map (\<lambda>x. f x @ [c]) xs))
               = f x @ [c] @ butlast (concat (map (\<lambda>x. f x @ [c]) xs))"
      by (simp add: butlast_append)
    with Cons.IH Cons show ?thesis by simp
  qed
qed

lemma concat_present:
  "concat (map (\<lambda>x. if P x then g x else []) xs) = concat (map g (filter P xs))"
  by (induction xs) simp_all

lemma set_clause_assignment:
  "col \<noteq> ''Enabled'' \<Longrightarrow>
   set_clause col v = (if present (col, v) then assignment (col, v) @ '','' else [])"
  by (simp add: set_clause_def present_def assignment_def)

lemma assignment_Enabled: "assignment (''Enabled'', v) = ''Enabled='' @ quoted v"
  by (simp add: assignment_def)

lemma modifyUser_sql_built:
  assumes "\<not> no_other attrObj ''phoneNumbers''" and "\<not> no_other attrObj ''emails''"
  shows "modifyUser_sql attrObj =
           Inr (join '','' (map assignment (filter present (user_attributes attrObj))))"
proof -
  have "modifyUser_sql attrObj =
          Inr (butlast
            ((if property attrObj ''active'' \<noteq> Undefined
              then ''Enabled='' @ quoted (property attrObj ''active'') @ '','' else [])
             @ set_clause ''Password'' (property attrObj ''password'')
             @ set_clause ''FirstName'' (path (Obj attrObj) [''name'', ''givenName''])
             @ set_clause ''MiddleName'' (path (Obj attrObj) [''name'', ''middleName''])
             @ set_clause ''LastName'' (path (Obj attrObj) [''name'', ''familyName''])
             @ set_clause ''MobilePhone'' (path (Obj attrObj) [''phoneNumbers'', ''other'', ''value''])
             @ set_clause ''Email'' (path (Obj attrObj) [''emails'', ''other'', ''value''])))"
    using assms
    by (simp add: modifyUser_sql_def Let_def name_part other_value_with_containers ebind_def
        property_with_containers_other split del: if_split cong: if_cong)
  also have "(if property attrObj ''active'' \<noteq> Undefined
              then ''Enabled='' @ quoted (property attrObj ''active'') @ '','' else [])
             @ set_clause ''Password'' (property attrObj ''password'')
             @ set_clause ''FirstName'' (path (Obj attrObj) [''name'', ''givenName''])
             @ set_clause ''MiddleName'' (path (Obj attrObj) [''name'', ''middleName''])
             @ set_clause ''LastName'' (path (Obj attrObj) [''name'', ''familyName''])
             @ set_clause ''MobilePhone'' (path (Obj attrObj) [''phoneNumbers'', ''other'', ''value''])
             @ set_clause ''Email'' (path (Obj attrObj) [''emails'', ''other'', ''value''])
           = concat (map (\<lambda>cv. if present cv then assignment cv @ '','' else [])
                         (user_attributes attrObj))"
    by (simp add: user_attributes_def set_clause_assignment assignment_Enabled present_def
        split del: if_split cong: if_cong)
  finally show ?thesis
    by (simp add: concat_present butlast_separated)
qed

lemma modifyUser_sql_fails:
  assumes "no_other attrObj ''phoneNumbers'' \<or> no_other attrObj ''emails''"
  shows "\<exists>m. modifyUser_sql attrObj = Inl (TypeError m)"
proof (cases "no_other attrObj ''phoneNumbers''")
  case True
  then obtain m where "other_value (with_containers attrObj) ''phoneNumbers'' = Inl (TypeError m)"
    using other_value_error by blast
  then show ?thesis
    by (simp add: modifyUser_sql_def Let_def name_part ebind_def)
next
  case False
  with assms have "no_other attrObj ''emails''" by simp
  then obtain m where "other_value (with_containers attrObj) ''emails'' = Inl (TypeError m)"
    using other_value_error by blast
  moreover obtain x where "other_value (with_containers attrObj) ''phoneNumbers'' = Inr x"
    using False by (simp add: other_value_with_containers)
  ultimately show ?thesis
    by (simp add: modifyUser_sql_def Let_def name_part ebind_def)
qed

lemma modifyUser_executes:
  assumes "ExecSql q \<in> set (fst (snd (modifyUser decoder depth config id' attrObj ctx reply s)))"
  shows "\<exists>sql. modifyUser_sql attrObj = Inr sql \<and> q = modifyUser_sqlQuery sql id'"
  using assms
  by (cases "connectionCfg decoder depth config ctx s")
     (auto simp add: modifyUser_def split: sum.splits db_reply.splits)

text \<open>
  Claim C4, as stated, fails for \<^verbatim>\<open>active\<close>: its assignment has no test for the empty
  string, so an empty \<^verbatim>\<open>active\<close> is the quoted empty literal and not SQL NULL.
\<close>

theorem modifyUser_empty_active_counterexample:
  "modifyUser_sql [(''active'', Str [])] = Inr (''Enabled='' @ [CHR 0x27, CHR 0x27])
   \<and> modifyUser_sql [(''active'', Str [])] \<noteq> Inr ''Enabled=null''"
  by code_simp

text \<open>
  Claim C4, amended. For every modifyUser input for which a statement is built, the set
  clause has exactly one assignment per attribute present (not undefined) among active,
  password, givenName, middleName, familyName, phone and email, in that order and
  separated by commas with no trailing comma; for each attribute but \<^verbatim>\<open>active\<close> an
  empty string is \<^verbatim>\<open>null\<close> and any other value the quoted literal; \<^verbatim>\<open>active\<close> is always
  the quoted literal of its value; and the statement selects the row by
  \<^verbatim>\<open>UserID like '<id>'\<close>. A statement the handler executes is the statement built
  from the input.
\<close>

theorem modifyUser_update_statement:
  "((\<exists>sql. modifyUser_sql attrObj = Inr sql) \<longleftrightarrow>
      \<not> no_other attrObj ''phoneNumbers'' \<and> \<not> no_other attrObj ''emails'')
   \<and> (modifyUser_sql attrObj = Inr sql \<longrightarrow>
        sql = join '','' (map assignment (filter present (user_attributes attrObj))) \<and>
        modifyUser_sqlQuery sql id' = ''update [User] set '' @ sql @ '' where UserID like '' @ quoted id')
   \<and> (col \<noteq> ''Enabled'' \<longrightarrow> assignment (col, Str []) = col @ ''=null'')
   \<and> (v \<noteq> Str [] \<longrightarrow> assignment (col, v) = col @ ''='' @ quoted v)
   \<and> assignment (''Enabled'', v) = ''Enabled='' @ quoted v
   \<and> map fst (user_attributes attrObj) =
       [''Enabled'', ''Password'', ''FirstName'', ''MiddleName'', ''LastName'', ''MobilePhone'', ''Email'']
   \<and> (ExecSql q \<in> set (fst (snd (modifyUser decoder depth config id' attrObj ctx reply s))) \<longrightarrow>
        (\<exists>built. modifyUser_sql attrObj = Inr built \<and> q = modifyUser_sqlQuery built id'))"
proof -
  have shape: "\<not> no_other attrObj ''phoneNumbers'' \<and> \<not> no_other attrObj ''emails''"
    if "modifyUser_sql attrObj = Inr r" for r
    using that modifyUser_sql_fails [of attrObj] by auto
  have 1: "(\<exists>sql. modifyUser_sql attrObj = Inr sql) \<longleftrightarrow>
      \<not> no_other attrObj ''phoneNumbers'' \<and> \<not> no_other attrObj ''emails''"
    using shape modifyUser_sql_built [of attrObj] by blast
  have 2: "sql = join '','' (map assignment (filter present (user_attributes attrObj)))"
    if r: "modifyUser_sql attrObj = Inr sql"
    using shape [OF r] modifyUser_sql_built [of attrObj] r by simp
  have 3: "modifyUser_sqlQuery sql id' = ''update [User] set '' @ sql @ '' where UserID like '' @ quoted id'"
    by (simp add: modifyUser_sqlQuery_def)
  have 4: "col \<noteq> ''Enabled'' \<longrightarrow> assignment (col, Str []) = col @ ''=null''"
    by (simp add: assignment_def)
  have 5: "v \<noteq> Str [] \<longrightarrow> assignment (col, v) = col @ ''='' @ quoted v"
    by (simp add: assignment_def)
  have 6: "assignment (''Enabled'', v) = ''Enabled='' @ quoted v"
    by (simp add: assignment_def)
  have 7: "map fst (user_attributes attrObj) =
       [''Enabled'', ''Password'', ''FirstName'', ''MiddleName'', ''LastName'', ''MobilePhone'', ''Email'']"
    by (simp add: user_attributes_def)
  have 8: "\<exists>built. modifyUser_sql attrObj = Inr built \<and> q = modifyUser_sqlQuery built id'"
    if "ExecSql q \<in> set (fst (snd (modifyUser decoder depth config id' attrObj ctx reply s)))"
    using that by (rule modifyUser_executes)
  from 1 2 3 4 5 6 7 8 show ?thesis by blast
qed

theorem modifyUser_update_statement_witness:
  "modifyUser_sql [(''active'', Bool False), (''password'', Str []),
                   (''name'', Obj [(''familyName'', Str ''Doe'')])]
     = Inr (''Enabled='false',Password=null,LastName='Doe'' @ [CHR 0x27])
   \<and> modifyUser_sqlQuery (''Enabled='false',Password=null,LastName='Doe'' @ [CHR 0x27]) (Str ''jdoe'')
     = ''update [User] set Enabled='false',Password=null,LastName='Doe' where UserID like 'jdoe'' @ [CHR 0x27]
   \<and> ExecSql (''update [User] set Enabled='false',Password=null,LastName='Doe' where UserID like 'jdoe'' @ [CHR 0x27])
     \<in> set (fst (snd (modifyUser base64_decode 10 (HRef 0) (Str ''jdoe'')
         [(''active'', Bool False), (''password'', Str []),
          (''name'', Obj [(''familyName'', Str ''Doe'')])]
         Undefined (RequestDone []) example_store)))"
proof -
  have run: "ExecSql (''update [User] set Enabled='false',Password=null,LastName='Doe' where UserID like 'jdoe'' @ [CHR 0x27])
     \<in> set (fst (snd (modifyUser base64_decode 10 (HRef 0) (Str ''jdoe'')
         [(''active'', Bool False), (''password'', Str []),
          (''name'', Obj [(''familyName'', Str ''Doe'')])]
         Undefined (RequestDone []) example_store)))"
    by code_simp
  have built: "modifyUser_sql [(''active'', Bool False), (''password'', Str []),
                   (''name'', Obj [(''familyName'', Str ''Doe'')])]
     = Inr (''Enabled='false',Password=null,LastName='Doe'' @ [CHR 0x27])"
    by code_simp
  from modifyUser_update_statement
    [of "[(''active'', Bool False), (''password'', Str []),
          (''name'', Obj [(''familyName'', Str ''Doe'')])]"
        "''Enabled='false',Password=null,LastName='Doe'' @ [CHR 0x27]" "Str ''jdoe''"] built
  have "modifyUser_sqlQuery (''Enabled='false',Password=null,LastName='Doe'' @ [CHR 0x27]) (Str ''jdoe'')
        = ''update [User] set '' @ (''Enabled='false',Password=null,LastName='Doe'' @ [CHR 0x27])
          @ '' where UserID like '' @ quoted (Str ''jdoe'')"
    by blast
  then have "modifyUser_sqlQuery (''Enabled='false',Password=null,LastName='Doe'' @ [CHR 0x27]) (Str ''jdoe'')
     = ''update [User] set Enabled='false',Password=null,LastName='Doe' where UserID like 'jdoe'' @ [CHR 0x27]"
    by (simp add: quoted_def)
  with built run show ?thesis by blast
qed

subsection \<open>The credentials of the authorization header\<close>

lemma split_first: "at_index (split c s) 0 = Some (takeWhile (\<lambda>x. x \<noteq> c) s)"
  by (induction s) (auto split: list.splits)

lemma split_not_Nil: "split c s \<noteq> []"
  by (induction s) (auto split: list.splits)

lemma split_two:
  "split c s = a # b # rest \<Longrightarrow> at_index (split c s) 0 = Some a \<and> at_index (split c s) 1 = Some b"
  by simp

lemma getCtxAuth_of_Basic:
  assumes "ctx_authorization ctx = Str authorization"
      and "split CHR '' '' authorization = ''Basic'' # token # rest"
  shows "getCtxAuth decoder ctx =
           (if takeWhile (\<lambda>c. c \<noteq> CHR '':'') (decoder token) \<noteq> []
            then Inr (at_index (split CHR '':'' (decoder token)) 0,
                      at_index (split CHR '':'' (decoder token)) 1)
            else Inr (None, Some token))"
proof -
  from assms(2) have "authorization \<noteq> []" by auto
  with assms show ?thesis
    by (simp add: getCtxAuth_def Let_def ebind_def split_first)
qed

lemma getCtxAuth_other:
  assumes "ctx_authorization ctx = Str authorization" and "authorization \<noteq> []"
      and "at_index (split CHR '' '' authorization) 0 \<noteq> Some ''Basic''"
  shows "getCtxAuth decoder ctx = Inr (None, at_index (split CHR '' '' authorization) 1)"
  using assms by (simp add: getCtxAuth_def Let_def ebind_def)

text \<open>
  Claim C10. For every authorization header with scheme \<^verbatim>\<open>Basic\<close> whose decoded token has
  no character before the first colon, the decoder returns no username and, as the
  password, the token as it stands in the header, still encoded.
\<close>

theorem getCtxAuth_Basic_empty_username:
  assumes "ctx_authorization ctx = Str authorization"
      and "split CHR '' '' authorization = ''Basic'' # token # rest"
      and "takeWhile (\<lambda>c. c \<noteq> CHR '':'') (decoder token) = []"
  shows "getCtxAuth decoder ctx = Inr (None, Some token)"
  using getCtxAuth_of_Basic [OF assms(1,2)] assms(3) by simp

theorem getCtxAuth_Basic_empty_username_witness:
  "ctx_authorization (Obj [(''request'', Obj [(''header'', Obj [(''authorization'', Str ''Basic OnNlY3JldA=='')])])])
     = Str ''Basic OnNlY3JldA==''
   \<and> split CHR '' '' ''Basic OnNlY3JldA=='' = [''Basic'', ''OnNlY3JldA=='']
   \<and> base64_decode ''OnNlY3JldA=='' = '':secret''
   \<and> takeWhile (\<lambda>c. c \<noteq> CHR '':'') (base64_decode ''OnNlY3JldA=='') = []
   \<and> getCtxAuth base64_decode
         (Obj [(''request'', Obj [(''header'', Obj [(''authorization'', Str ''Basic OnNlY3JldA=='')])])])
       = Inr (None, Some ''OnNlY3JldA=='')"
proof -
  have 1: "ctx_authorization (Obj [(''request'', Obj [(''header'', Obj [(''authorization'', Str ''Basic OnNlY3JldA=='')])])])
     = Str ''Basic OnNlY3JldA==''"
    by code_simp
  have 2: "split CHR '' '' ''Basic OnNlY3JldA=='' = ''Basic'' # ''OnNlY3JldA=='' # []"
    by code_simp
  have 3: "base64_decode ''OnNlY3JldA=='' = '':secret''"
    by code_simp
  have 4: "takeWhile (\<lambda>c. c \<noteq> CHR '':'') (base64_decode ''OnNlY3JldA=='') = []"
    by (simp add: 3)
  from getCtxAuth_Basic_empty_username [where decoder = base64_decode, OF 1 2 4] 1 2 3 4 show ?thesis
    by simp
qed

subsection \<open>The handlers leave the objects of the store as they were\<close>

lemma fresh_mono: "fresh n s v \<Longrightarrow> next_addr s \<le> next_addr s' \<Longrightarrow> fresh n s' v"
  by (cases v) (simp_all add: fresh_def)

lemma fresh_fields_mono:
  "fresh_fields n s kvs \<Longrightarrow> next_addr s \<le> next_addr s' \<Longrightarrow> fresh_fields n s' kvs"
  by (auto simp add: fresh_fields_def list_all_iff intro: fresh_mono)

lemma fresh_fields_lookup:
  "fresh_fields n s kvs \<Longrightarrow> map_of kvs k = Some v \<Longrightarrow> fresh n s v"
  by (force simp add: fresh_fields_def list_all_iff dest: map_of_SomeD)

lemma fresh_fields_update:
  "fresh_fields n s kvs \<Longrightarrow> fresh n s x \<Longrightarrow> fresh_fields n s (AList.update k x kvs)"
  by (induction kvs) (auto simp add: fresh_fields_def)

lemma keepsI:
  assumes "\<And>s r s'. closed_above n s \<Longrightarrow> P s \<Longrightarrow> m s = (r, s') \<Longrightarrow>
             closed_above n s' \<and> next_addr s \<le> next_addr s' \<and> (\<forall>a<n. objs s' a = objs s a) \<and>
             (\<forall>x. r = Inr x \<longrightarrow> Q x s')"
  shows "keeps n P m Q"
  unfolding keeps_def using assms by (fastforce split: prod.splits sum.splits)

lemma keepsD:
  assumes "keeps n P m Q" and "closed_above n s" and "P s" and "m s = (r, s')"
  shows "closed_above n s' \<and> next_addr s \<le> next_addr s' \<and> (\<forall>a<n. objs s' a = objs s a) \<and>
         (\<forall>x. r = Inr x \<longrightarrow> Q x s')"
  using assms unfolding keeps_def by (fastforce split: prod.splits sum.splits)

lemma keeps_bind:
  assumes "keeps n P m R" and "\<And>x. keeps n (R x) (f x) Q"
  shows "keeps n P (sbind m f) Q"
proof (rule keepsI)
  fix s r s'
  assume c: "closed_above n s" and p: "P s" and run: "sbind m f s = (r, s')"
  obtain r1 s1 where m: "m s = (r1, s1)" by (cases "m s")
  note 1 = keepsD [OF assms(1) c p m]
  show "closed_above n s' \<and> next_addr s \<le> next_addr s' \<and> (\<forall>a<n. objs s' a = objs s a) \<and>
        (\<forall>x. r = Inr x \<longrightarrow> Q x s')"
  proof (cases r1)
    case (Inl e)
    with run m have "r = Inl e" and "s' = s1" by (simp_all add: sbind_def)
    with 1 show ?thesis by simp
  next
    case (Inr x)
    with run m have f: "f x s1 = (r, s')" by (simp add: sbind_def)
    from 1 Inr have "closed_above n s1" and "R x s1" by simp_all
    note 2 = keepsD [OF assms(2) this f]
    from 1 2 show ?thesis by auto
  qed
qed

lemma keeps_weaken:
  assumes "keeps n P' m Q'" and "\<And>s. P s \<Longrightarrow> P' s" and "\<And>x s. Q' x s \<Longrightarrow> Q x s"
  shows "keeps n P m Q"
proof (rule keepsI)
  fix s r s'
  assume "closed_above n s" and "P s" and "m s = (r, s')"
  with keepsD [OF assms(1), of s r s'] assms(2,3)
  show "closed_above n s' \<and> next_addr s \<le> next_addr s' \<and> (\<forall>a<n. objs s' a = objs s a) \<and>
        (\<forall>x. r = Inr x \<longrightarrow> Q x s')"
    by auto
qed

lemma keeps_pin:
  assumes "keeps n P m Q"
  shows "keeps n (\<lambda>s. P s \<and> fresh n s c) m (\<lambda>x s. Q x s \<and> fresh n s c)"
proof (rule keepsI)
  fix s r s'
  assume "closed_above n s" and "P s \<and> fresh n s c" and "m s = (r, s')"
  with keepsD [OF assms, of s r s']
  show "closed_above n s' \<and> next_addr s \<le> next_addr s' \<and> (\<forall>a<n. objs s' a = objs s a) \<and>
        (\<forall>x. r = Inr x \<longrightarrow> Q x s' \<and> fresh n s' c)"
    by (auto intro: fresh_mono)
qed

lemma keeps_return: "keeps n (Q x) (sreturn x) Q"
  by (rule keepsI) (auto simp add: sreturn_def)

lemma keeps_of_result: "keeps n P (of_result r) (\<lambda>x. P)"
  by (rule keepsI) (auto simp add: of_result_def)

lemma keeps_read: "keeps n P (obj_read v k) (\<lambda>x. P)"
  by (rule keepsI) (auto simp add: obj_read_def)

lemma keeps_read_fresh: "keeps n (\<lambda>s. fresh n s v) (obj_read v k) (\<lambda>x s. fresh n s x)"
proof (rule keepsI)
  fix s r s'
  assume c: "closed_above n s" and v: "fresh n s v" and run: "obj_read v k s = (r, s')"
  then have s': "s' = s" by (simp add: obj_read_def)
  have "fresh n s x" if "r = Inr x" for x
  proof (cases v)
    case (HRef a)
    with v have "n \<le> a" and "a < next_addr s" by (simp_all add: fresh_def)
    with c have "fresh_fields n s (objs s a)" by (simp add: closed_above_def)
    then have "fresh n s y" if "map_of (objs s a) k = Some y" for y
      using that by (rule fresh_fields_lookup)
    moreover have "fresh n s HUndefined" by (simp add: fresh_def)
    ultimately show ?thesis
      using run HRef that by (auto simp add: obj_read_def split: option.splits)
  qed (use run that in \<open>auto simp add: obj_read_def fresh_def\<close>)
  with c s' show "closed_above n s' \<and> next_addr s \<le> next_addr s' \<and> (\<forall>a<n. objs s' a = objs s a) \<and>
        (\<forall>x. r = Inr x \<longrightarrow> fresh n s' x)"
    by simp
qed

lemma keeps_write:
  "keeps n (\<lambda>s. fresh n s v \<and> fresh n s x) (obj_write v k x) (\<lambda>u s. True)"
proof (rule keepsI)
  fix s r s'
  assume c: "closed_above n s" and vx: "fresh n s v \<and> fresh n s x"
    and run: "obj_write v k x s = (r, s')"
  show "closed_above n s' \<and> next_addr s \<le> next_addr s' \<and> (\<forall>a<n. objs s' a = objs s a) \<and>
        (\<forall>u. r = Inr u \<longrightarrow> True)"
  proof (cases v)
    case (HRef a)
    with vx have a: "n \<le> a" "a < next_addr s" by (simp_all add: fresh_def)
    from run HRef have s': "s' = s\<lparr>objs := (objs s)(a := AList.update k x (objs s a))\<rparr>"
      by (simp add: obj_write_def)
    have "fresh_fields n s' (objs s' b)" if "n \<le> b" and "b < next_addr s'" for b
    proof -
      from that s' c have old: "fresh_fields n s (objs s b)" by (simp add: closed_above_def)
      have "fresh_fields n s (objs s' b)"
        using old vx s' by (cases "b = a") (simp_all add: fresh_fields_update)
      then show ?thesis by (rule fresh_fields_mono) (simp add: s')
    qed
    with c s' a show ?thesis by (simp add: closed_above_def)
  qed (use run c in \<open>auto simp add: obj_write_def\<close>)
qed

lemma keeps_new_object:
  "keeps n (\<lambda>s. fresh_fields n s kvs) (new_object kvs) (\<lambda>x s. fresh n s x)"
proof (rule keepsI)
  fix s r s'
  assume c: "closed_above n s" and f: "fresh_fields n s kvs" and run: "new_object kvs s = (r, s')"
  from run have r: "r = Inr (HRef (next_addr s))"
    and s': "s' = s\<lparr>objs := (objs s)(next_addr s := kvs), next_addr := Suc (next_addr s)\<rparr>"
    by (auto simp add: new_object_def)
  from c have n: "n \<le> next_addr s" by (simp add: closed_above_def)
  have "fresh_fields n s' (objs s' b)" if "n \<le> b" and "b < next_addr s'" for b
  proof -
    have "fresh_fields n s (objs s' b)"
      using that s' c f by (cases "b = next_addr s") (simp_all add: closed_above_def)
    then show ?thesis by (rule fresh_fields_mono) (simp add: s')
  qed
  with n r s' show "closed_above n s' \<and> next_addr s \<le> next_addr s' \<and> (\<forall>a<n. objs s' a = objs s a) \<and>
        (\<forall>x. r = Inr x \<longrightarrow> fresh n s' x)"
    by (auto simp add: closed_above_def fresh_def)
qed
lemma keeps_at:
  assumes "\<And>kvs. keeps n P (g kvs) Q"
  shows "keeps n P (\<lambda>s. g (h s) s) Q"
proof (rule keepsI)
  fix s r s'
  assume "closed_above n s" and "P s" and "g (h s) s = (r, s')"
  then show "closed_above n s' \<and> next_addr s \<le> next_addr s' \<and> (\<forall>a<n. objs s' a = objs s a) \<and>
             (\<forall>x. r = Inr x \<longrightarrow> Q x s')"
    by (rule keepsD [OF assms])
qed

lemma keeps_copy_fields:
  assumes cp: "\<And>v. keeps n (\<lambda>s. True) (cp v) (\<lambda>x s. fresh n s x)"
  shows "keeps n (\<lambda>s. True) (copy_fields cp kvs) (\<lambda>kvs' s. fresh_fields n s kvs')"
proof (induction kvs)
  case Nil
  show ?case
    by (rule keepsI) (auto simp add: sreturn_def fresh_fields_def)
next
  case (Cons kv kvs)
  obtain k v where kv: "kv = (k, v)" by (cases kv)
  have rest: "keeps n (\<lambda>s. fresh n s v')
                (sbind (copy_fields cp kvs) (\<lambda>kvs'. sreturn ((k, v') # kvs')))
                (\<lambda>kvs' s. fresh_fields n s kvs')" for v'
  proof (rule keeps_bind [where R = "\<lambda>kvs' s. fresh_fields n s kvs' \<and> fresh n s v'"])
    show "keeps n (\<lambda>s. fresh n s v') (copy_fields cp kvs)
            (\<lambda>kvs' s. fresh_fields n s kvs' \<and> fresh n s v')"
      by (rule keeps_weaken [OF keeps_pin [OF Cons.IH, of v']]) simp_all
    show "keeps n (\<lambda>s. fresh_fields n s kvs' \<and> fresh n s v') (sreturn ((k, v') # kvs'))
            (\<lambda>kvs' s. fresh_fields n s kvs')" for kvs'
      by (rule keepsI) (auto simp add: sreturn_def fresh_fields_def)
  qed
  show ?case
    unfolding kv copy_fields.simps
    by (rule keeps_bind [OF cp rest])
qed

lemma keeps_copyObj: "keeps n (\<lambda>s. True) (copyObj depth v) (\<lambda>x s. fresh n s x)"
proof (induction depth arbitrary: v)
  case 0
  show ?case
    by (cases v; rule keepsI) (auto simp add: sreturn_def of_result_def fresh_def)
next
  case (Suc depth)
  show ?case
  proof (cases v)
    case (HRef a)
    have "keeps n (\<lambda>s. True) (sbind (\<lambda>s. copy_fields (copyObj depth) (objs s a) s) new_object)
            (\<lambda>x s. fresh n s x)"
    proof (rule keeps_bind [where R = "\<lambda>kvs s. fresh_fields n s kvs"])
      show "keeps n (\<lambda>s. True) (\<lambda>s. copy_fields (copyObj depth) (objs s a) s)
              (\<lambda>kvs s. fresh_fields n s kvs)"
        by (rule keeps_at) (rule keeps_copy_fields [OF Suc.IH])
      show "keeps n (\<lambda>s. fresh_fields n s kvs) (new_object kvs) (\<lambda>x s. fresh n s x)" for kvs
        by (rule keeps_new_object)
    qed
    with HRef show ?thesis by simp
  qed (rule keepsI; auto simp add: sreturn_def fresh_def)+
qed

text \<open>The reads and writes of lines 113 to 118 start at the copy \<open>c\<close>, which stays fresh.\<close>

lemma read_copy:
  "keeps n (\<lambda>s. fresh n s c) (obj_read c k) (\<lambda>x s. fresh n s x \<and> fresh n s c)"
  by (rule keeps_weaken [OF keeps_pin [OF keeps_read_fresh [of n c k], of c]]) simp_all

lemma read2_copy:
  "keeps n (\<lambda>s. fresh n s c) (obj_read2 c k1 k2) (\<lambda>x s. fresh n s x \<and> fresh n s c)"
  unfolding obj_read2_def
  by (rule keeps_bind [OF read_copy]) (rule keeps_pin [OF keeps_read_fresh])

lemma write_pinned:
  "keeps n (\<lambda>s. fresh n s v \<and> fresh n s x \<and> fresh n s c) (obj_write v k x) (\<lambda>u s. fresh n s c)"
  by (rule keeps_weaken [OF keeps_pin [OF keeps_write [of n v x k], of c]]) simp_all

lemma write_copy:
  "keeps n (\<lambda>s. fresh n s x \<and> fresh n s c) (obj_write c k x) (\<lambda>u s. fresh n s c)"
  by (rule keeps_weaken [OF write_pinned [of n c x c k]]) simp_all

lemma write2_copy:
  "keeps n (\<lambda>s. fresh n s x \<and> fresh n s c) (obj_write2 c k1 k2 x) (\<lambda>u s. fresh n s c)"
  unfolding obj_write2_def
proof (rule keeps_bind [where R = "\<lambda>o1 s. fresh n s o1 \<and> fresh n s x \<and> fresh n s c"])
  show "keeps n (\<lambda>s. fresh n s x \<and> fresh n s c) (obj_read c k1)
          (\<lambda>o1 s. fresh n s o1 \<and> fresh n s x \<and> fresh n s c)"
    by (rule keeps_weaken [OF keeps_pin [OF read_copy [of n c k1], of x]]) simp_all
  show "keeps n (\<lambda>s. fresh n s o1 \<and> fresh n s x \<and> fresh n s c) (obj_write o1 k2 x)
          (\<lambda>u s. fresh n s c)" for o1
    by (rule write_pinned)
qed

lemma write3_copy:
  "keeps n (\<lambda>s. fresh n s x \<and> fresh n s c) (obj_write3 c k1 k2 k3 x) (\<lambda>u s. fresh n s c)"
  unfolding obj_write3_def
proof (rule keeps_bind [where R = "\<lambda>o2 s. fresh n s o2 \<and> fresh n s x \<and> fresh n s c"])
  show "keeps n (\<lambda>s. fresh n s x \<and> fresh n s c) (obj_read2 c k1 k2)
          (\<lambda>o2 s. fresh n s o2 \<and> fresh n s x \<and> fresh n s c)"
    by (rule keeps_weaken [OF keeps_pin [OF read2_copy [of n c k1 k2], of x]]) simp_all
  show "keeps n (\<lambda>s. fresh n s o2 \<and> fresh n s x \<and> fresh n s c) (obj_write o2 k3 x)
          (\<lambda>u s. fresh n s c)" for o2
    by (rule write_pinned)
qed

lemma new_object_copy:
  "keeps n (\<lambda>s. fresh n s c) (new_object []) (\<lambda>x s. fresh n s x \<and> fresh n s c)"
  by (rule keeps_weaken [OF keeps_pin [OF keeps_new_object [of n "[]"], of c]])
     (simp_all add: fresh_fields_def)

lemma return_copy: "keeps n (\<lambda>s. P s \<and> fresh n s c) (sreturn x) (\<lambda>u s. fresh n s c)"
  by (rule keepsI) (auto simp add: sreturn_def)

lemma fresh_primitive [simp]:
  "fresh n s (HStr str)" "fresh n s HUndefined" "fresh n s (hval_of opt)"
  by (simp_all add: fresh_def hval_of_def split: option.splits)

lemma keeps_seq:
  assumes "keeps n (\<lambda>s. fresh n s c) m (\<lambda>u s. fresh n s c)"
      and "keeps n (\<lambda>s. fresh n s c) k Q"
  shows "keeps n (\<lambda>s. fresh n s c) (sbind m (\<lambda>u. k)) Q"
  using assms by (rule keeps_bind)

lemma line113:
  "keeps n (\<lambda>s. fresh n s c)
     (sbind (obj_read c ''authentication'') (\<lambda>authentication.
        if \<not> htruthy authentication
        then sbind (new_object []) (obj_write c ''authentication'')
        else sreturn ()))
     (\<lambda>u s. fresh n s c)"
proof (rule keeps_bind [OF read_copy])
  fix authentication
  have "keeps n (\<lambda>s. fresh n s c) (sbind (new_object []) (obj_write c ''authentication''))
          (\<lambda>u s. fresh n s c)"
    by (rule keeps_bind [OF new_object_copy]) (rule write_copy)
  then have "keeps n (\<lambda>s. fresh n s authentication \<and> fresh n s c)
          (sbind (new_object []) (obj_write c ''authentication'')) (\<lambda>u s. fresh n s c)"
    by (rule keeps_weaken) simp_all
  then show "keeps n (\<lambda>s. fresh n s authentication \<and> fresh n s c)
          (if \<not> htruthy authentication
           then sbind (new_object []) (obj_write c ''authentication'')
           else sreturn ())
          (\<lambda>u s. fresh n s c)"
    by (simp add: return_copy)
qed

lemma line114:
  "keeps n (\<lambda>s. fresh n s c)
     (sbind (obj_read2 c ''authentication'' ''type'') (\<lambda>type.
        if \<not> htruthy type
        then obj_write2 c ''authentication'' ''type'' (HStr ''default'')
        else sreturn ()))
     (\<lambda>u s. fresh n s c)"
proof (rule keeps_bind [OF read2_copy])
  fix type
  have "keeps n (\<lambda>s. fresh n s type \<and> fresh n s c)
          (obj_write2 c ''authentication'' ''type'' (HStr ''default'')) (\<lambda>u s. fresh n s c)"
    by (rule keeps_weaken [OF write2_copy]) simp_all
  then show "keeps n (\<lambda>s. fresh n s type \<and> fresh n s c)
          (if \<not> htruthy type
           then obj_write2 c ''authentication'' ''type'' (HStr ''default'')
           else sreturn ())
          (\<lambda>u s. fresh n s c)"
    by (simp add: return_copy)
qed

lemma line115:
  "keeps n (\<lambda>s. fresh n s c)
     (sbind (obj_read2 c ''authentication'' ''options'') (\<lambda>options.
        if \<not> htruthy options
        then sbind (new_object []) (obj_write2 c ''authentication'' ''options'')
        else sreturn ()))
     (\<lambda>u s. fresh n s c)"
proof (rule keeps_bind [OF read2_copy])
  fix options
  have "keeps n (\<lambda>s. fresh n s c) (sbind (new_object []) (obj_write2 c ''authentication'' ''options''))
          (\<lambda>u s. fresh n s c)"
    by (rule keeps_bind [OF new_object_copy]) (rule write2_copy)
  then have "keeps n (\<lambda>s. fresh n s options \<and> fresh n s c)
          (sbind (new_object []) (obj_write2 c ''authentication'' ''options'')) (\<lambda>u s. fresh n s c)"
    by (rule keeps_weaken) simp_all
  then show "keeps n (\<lambda>s. fresh n s options \<and> fresh n s c)
          (if \<not> htruthy options
           then sbind (new_object []) (obj_write2 c ''authentication'' ''options'')
           else sreturn ())
          (\<lambda>u s. fresh n s c)"
    by (simp add: return_copy)
qed

lemma line117:
  "keeps n (\<lambda>s. fresh n s c)
     (obj_write3 c ''authentication'' ''options'' ''password'' (hval_of password))
     (\<lambda>u s. fresh n s c)"
  by (rule keeps_weaken [OF write3_copy]) simp_all

lemma line118:
  "keeps n (\<lambda>s. fresh n s c)
     (if username \<noteq> None \<and> username \<noteq> Some []
      then obj_write3 c ''authentication'' ''options'' ''userName'' (hval_of username)
      else sreturn ())
     (\<lambda>u s. fresh n s c)"
proof -
  have "keeps n (\<lambda>s. fresh n s c) (sreturn ()) (\<lambda>u s. fresh n s c)"
    by (rule keeps_weaken [OF return_copy [where P = "\<lambda>s. True"]]) simp_all
  moreover have "keeps n (\<lambda>s. fresh n s c)
     (obj_write3 c ''authentication'' ''options'' ''userName'' (hval_of username))
     (\<lambda>u s. fresh n s c)"
    by (rule keeps_weaken [OF write3_copy]) simp_all
  ultimately show ?thesis by simp
qed

lemma keeps_connectionCfg:
  "keeps n (\<lambda>s. True) (connectionCfg decoder depth config ctx) (\<lambda>cfg s. True)"
proof -
  have tail: "keeps n (\<lambda>s. fresh n s c)
      (sbind (obj_write3 c ''authentication'' ''options'' ''password'' (hval_of password)) (\<lambda>u.
       sbind (if username \<noteq> None \<and> username \<noteq> Some []
              then obj_write3 c ''authentication'' ''options'' ''userName'' (hval_of username)
              else sreturn ()) (\<lambda>u.
       sreturn c)))
      (\<lambda>cfg s. True)" for c username password
    by (rule keeps_seq [OF line117], rule keeps_seq [OF line118])
       (rule keepsI, simp add: sreturn_def)
  have auth: "keeps n (\<lambda>s. fresh n s c)
      (sbind (of_result (getCtxAuth decoder ctx)) (\<lambda>(username, password).
       sbind (obj_write3 c ''authentication'' ''options'' ''password'' (hval_of password)) (\<lambda>u.
       sbind (if username \<noteq> None \<and> username \<noteq> Some []
              then obj_write3 c ''authentication'' ''options'' ''userName'' (hval_of username)
              else sreturn ()) (\<lambda>u.
       sreturn c))))
      (\<lambda>cfg s. True)" for c
    by (rule keeps_bind [OF keeps_of_result]) (simp only: case_prod_beta, rule tail)
  have copy: "keeps n (\<lambda>s. fresh n s c)
      (if truthy (ctx_authorization ctx) then
         sbind (sbind (obj_read c ''authentication'') (\<lambda>authentication.
                  if \<not> htruthy authentication
                  then sbind (new_object []) (obj_write c ''authentication'')
                  else sreturn ())) (\<lambda>u.
         sbind (sbind (obj_read2 c ''authentication'' ''type'') (\<lambda>type.
                  if \<not> htruthy type
                  then obj_write2 c ''authentication'' ''type'' (HStr ''default'')
                  else sreturn ())) (\<lambda>u.
         sbind (sbind (obj_read2 c ''authentication'' ''options'') (\<lambda>options.
                  if \<not> htruthy options
                  then sbind (new_object []) (obj_write2 c ''authentication'' ''options'')
                  else sreturn ())) (\<lambda>u.
         sbind (of_result (getCtxAuth decoder ctx)) (\<lambda>(username, password).
         sbind (obj_write3 c ''authentication'' ''options'' ''password'' (hval_of password)) (\<lambda>u.
         sbind (if username \<noteq> None \<and> username \<noteq> Some []
                then obj_write3 c ''authentication'' ''options'' ''userName'' (hval_of username)
                else sreturn ()) (\<lambda>u.
         sreturn c))))))
       else sreturn c)
      (\<lambda>cfg s. True)" for c
  proof (cases "truthy (ctx_authorization ctx)")
    case True
    have "keeps n (\<lambda>s. fresh n s c)
      (sbind (sbind (obj_read c ''authentication'') (\<lambda>authentication.
                  if \<not> htruthy authentication
                  then sbind (new_object []) (obj_write c ''authentication'')
                  else sreturn ())) (\<lambda>u.
         sbind (sbind (obj_read2 c ''authentication'' ''type'') (\<lambda>type.
                  if \<not> htruthy type
                  then obj_write2 c ''authentication'' ''type'' (HStr ''default'')
                  else sreturn ())) (\<lambda>u.
         sbind (sbind (obj_read2 c ''authentication'' ''options'') (\<lambda>options.
                  if \<not> htruthy options
                  then sbind (new_object []) (obj_write2 c ''authentication'' ''options'')
                  else sreturn ())) (\<lambda>u.
         sbind (of_result (getCtxAuth decoder ctx)) (\<lambda>(username, password).
         sbind (obj_write3 c ''authentication'' ''options'' ''password'' (hval_of password)) (\<lambda>u.
         sbind (if username \<noteq> None \<and> username \<noteq> Some []
                then obj_write3 c ''authentication'' ''options'' ''userName'' (hval_of username)
                else sreturn ()) (\<lambda>u.
         sreturn c)))))))
      (\<lambda>cfg s. True)"
      by (rule keeps_seq [OF line113], rule keeps_seq [OF line114], rule keeps_seq [OF line115])
         (rule auth)
    with True show ?thesis by simp
  next
    case False
    have "keeps n (\<lambda>s. fresh n s c) (sreturn c) (\<lambda>cfg s. True)"
      by (rule keepsI) (simp add: sreturn_def)
    with False show ?thesis by simp
  qed
  show ?thesis
    unfolding connectionCfg_def
    by (rule keeps_bind [OF keeps_read], rule keeps_bind [OF keeps_copyObj]) (rule copy)
qed

lemma connectionCfg_frame:
  assumes "connectionCfg decoder depth config ctx s = (r, s')"
  shows "next_addr s \<le> next_addr s' \<and> (\<forall>a<next_addr s. objs s' a = objs s a)"
proof -
  have "closed_above (next_addr s) s"
    by (auto simp add: closed_above_def)
  from keepsD [OF keeps_connectionCfg this _ assms] show ?thesis
    by simp
qed

lemma getUsers_frame:
  "next_addr s \<le> next_addr (snd (snd (getUsers decoder depth config getObj ctx reply s))) \<and>
   (\<forall>a<next_addr s. objs (snd (snd (getUsers decoder depth config getObj ctx reply s))) a = objs s a)"
proof (cases "connectionCfg decoder depth config ctx s")
  case (Pair r s')
  from connectionCfg_frame [OF this] Pair show ?thesis
    by (simp add: getUsers_def split: sum.splits db_reply.splits)
qed

lemma createUser_frame:
  "next_addr s \<le> next_addr (snd (snd (createUser decoder depth config userObj ctx reply s))) \<and>
   (\<forall>a<next_addr s. objs (snd (snd (createUser decoder depth config userObj ctx reply s))) a = objs s a)"
proof (cases "connectionCfg decoder depth config ctx s")
  case (Pair r s')
  from connectionCfg_frame [OF this] Pair show ?thesis
    by (simp add: createUser_def split: sum.splits db_reply.splits)
qed

lemma deleteUser_frame:
  "next_addr s \<le> next_addr (snd (snd (deleteUser decoder depth config id' ctx reply s))) \<and>
   (\<forall>a<next_addr s. objs (snd (snd (deleteUser decoder depth config id' ctx reply s))) a = objs s a)"
proof (cases "connectionCfg decoder depth config ctx s")
  case (Pair r s')
  from connectionCfg_frame [OF this] Pair show ?thesis
    by (simp add: deleteUser_def split: sum.splits db_reply.splits)
qed

lemma modifyUser_frame:
  "next_addr s \<le> next_addr (snd (snd (modifyUser decoder depth config id' attrObj ctx reply s))) \<and>
   (\<forall>a<next_addr s. objs (snd (snd (modifyUser decoder depth config id' attrObj ctx reply s))) a = objs s a)"
proof (cases "connectionCfg decoder depth config ctx s")
  case (Pair r s')
  from connectionCfg_frame [OF this] Pair show ?thesis
    by (simp add: modifyUser_def split: sum.splits db_reply.splits)
qed

lemma createGroup_frame:
  "next_addr s \<le> next_addr (snd (snd (createGroup decoder depth config groupObj ctx reply s))) \<and>
   (\<forall>a<next_addr s. objs (snd (snd (createGroup decoder depth config groupObj ctx reply s))) a = objs s a)"
proof (cases "connectionCfg decoder depth config ctx s")
  case (Pair r s')
  from connectionCfg_frame [OF this] Pair show ?thesis
    by (simp add: createGroup_def Let_def split: sum.splits db_reply.splits)
qed

text \<open>
  Claim C9. No handler changes the static configuration: the credentials of the request
  are written to the copy made for the call only. After any invocation, whatever its
  outcome, every object that was in the store before the call (the configuration object
  and everything it refers to among them) has the properties it had, and the objects
  created by the call are at addresses that were free.
\<close>

theorem handlers_keep_configuration:
  "next_addr s \<le> next_addr (snd (snd (invoke decoder depth config call reply s))) \<and>
   (\<forall>a<next_addr s. objs (snd (snd (invoke decoder depth config call reply s))) a = objs s a)"
proof (cases call)
  case (GetUsers getObj ctx)
  then show ?thesis using getUsers_frame by simp
next
  case (CreateUser userObj ctx)
  then show ?thesis using createUser_frame by simp
next
  case (DeleteUser id' ctx)
  then show ?thesis using deleteUser_frame by simp
next
  case (ModifyUser id' attrObj ctx)
  then show ?thesis using modifyUser_frame by simp
next
  case (GetGroups getObj)
  then show ?thesis by (simp add: getGroups_def split: unit.split)
next
  case (CreateGroup groupObj ctx)
  then show ?thesis using createGroup_frame by simp
next
  case (DeleteGroup id')
  then show ?thesis by (simp add: deleteGroup_def)
next
  case (ModifyGroup id' attrObj)
  then show ?thesis by (simp add: modifyGroup_def)
qed

theorem handlers_keep_configuration_witness:
  "next_addr example_store = 4
   \<and> next_addr (snd (snd (invoke base64_decode 10 (HRef 0)
        (DeleteUser (Str ''jdoe'') (example_ctx ''Basic amRvZTpwdw=='')) (RequestDone []) example_store))) = 7
   \<and> map (objs (snd (snd (invoke base64_decode 10 (HRef 0)
        (DeleteUser (Str ''jdoe'') (example_ctx ''Basic amRvZTpwdw=='')) (RequestDone []) example_store))))
        [0, 1, 2, 3]
     = [[(''connection'', HRef 1)],
        [(''server'', HStr ''db''), (''authentication'', HRef 2)],
        [(''type'', HStr ''default''), (''options'', HRef 3)],
        [(''userName'', HStr ''sa''), (''password'', HStr ''secret'')]]
   \<and> objs (snd (snd (invoke base64_decode 10 (HRef 0)
        (DeleteUser (Str ''jdoe'') (example_ctx ''Basic amRvZTpwdw=='')) (RequestDone []) example_store))) 4
     = [(''userName'', HStr ''jdoe''), (''password'', HStr ''pw'')]"
proof -
  have n: "next_addr example_store = 4"
    by (simp add: example_store_def)
  have o: "map (objs example_store) [0, 1, 2, 3]
     = [[(''connection'', HRef 1)],
        [(''server'', HStr ''db''), (''authentication'', HRef 2)],
        [(''type'', HStr ''default''), (''options'', HRef 3)],
        [(''userName'', HStr ''sa''), (''password'', HStr ''secret'')]]"
    by (simp add: example_store_def)
  have new: "next_addr (snd (snd (invoke base64_decode 10 (HRef 0)
        (DeleteUser (Str ''jdoe'') (example_ctx ''Basic amRvZTpwdw=='')) (RequestDone []) example_store))) = 7
     \<and> objs (snd (snd (invoke base64_decode 10 (HRef 0)
        (DeleteUser (Str ''jdoe'') (example_ctx ''Basic amRvZTpwdw=='')) (RequestDone []) example_store))) 4
     = [(''userName'', HStr ''jdoe''), (''password'', HStr ''pw'')]"
    by code_simp
  from handlers_keep_configuration [of example_store base64_decode 10 "HRef 0"
      "DeleteUser (Str ''jdoe'') (example_ctx ''Basic amRvZTpwdw=='')" "RequestDone []"] n
  have "\<forall>a<4. objs (snd (snd (invoke base64_decode 10 (HRef 0)
        (DeleteUser (Str ''jdoe'') (example_ctx ''Basic amRvZTpwdw=='')) (RequestDone []) example_store))) a
        = objs example_store a"
    by simp
  then have "map (objs (snd (snd (invoke base64_decode 10 (HRef 0)
        (DeleteUser (Str ''jdoe'') (example_ctx ''Basic amRvZTpwdw=='')) (RequestDone []) example_store))))
        [0, 1, 2, 3] = map (objs example_store) [0, 1, 2, 3]"
    by simp
  with n o new show ?thesis by simp
qed

subsection \<open>The calls a handler makes on its connection\<close>

lemma getUsers_trace:
  "fst (snd (getUsers decoder depth config getObj ctx reply s)) = [] \<or>
   (case reply of
      ConnectError m \<Rightarrow>
        (\<exists>cfg. fst (snd (getUsers decoder depth config getObj ctx reply s)) = [NewConnection cfg, Connect])
    | _ \<Rightarrow>
        (\<exists>cfg q. fst (snd (getUsers decoder depth config getObj ctx reply s))
                   = [NewConnection cfg, Connect, ExecSql q, Close]))"
  by (cases "connectionCfg decoder depth config ctx s")
     (simp add: getUsers_def split: sum.splits db_reply.splits)

lemma createUser_trace:
  "fst (snd (createUser decoder depth config userObj ctx reply s)) = [] \<or>
   (case reply of
      ConnectError m \<Rightarrow>
        (\<exists>cfg. fst (snd (createUser decoder depth config userObj ctx reply s)) = [NewConnection cfg, Connect])
    | _ \<Rightarrow>
        (\<exists>cfg q. fst (snd (createUser decoder depth config userObj ctx reply s))
                   = [NewConnection cfg, Connect, ExecSql q, Close]))"
  by (cases "connectionCfg decoder depth config ctx s")
     (simp add: createUser_def split: sum.splits db_reply.splits)

lemma deleteUser_trace:
  "fst (snd (deleteUser decoder depth config id' ctx reply s)) = [] \<or>
   (case reply of
      ConnectError m \<Rightarrow>
        (\<exists>cfg. fst (snd (deleteUser decoder depth config id' ctx reply s)) = [NewConnection cfg, Connect])
    | _ \<Rightarrow>
        (\<exists>cfg q. fst (snd (deleteUser decoder depth config id' ctx reply s))
                   = [NewConnection cfg, Connect, ExecSql q, Close]))"
  by (cases "connectionCfg decoder depth config ctx s")
     (simp add: deleteUser_def split: sum.splits db_reply.splits)

lemma modifyUser_trace:
  "fst (snd (modifyUser decoder depth config id' attrObj ctx reply s)) = [] \<or>
   (case reply of
      ConnectError m \<Rightarrow>
        (\<exists>cfg. fst (snd (modifyUser decoder depth config id' attrObj ctx reply s)) = [NewConnection cfg, Connect])
    | _ \<Rightarrow>
        (\<exists>cfg q. fst (snd (modifyUser decoder depth config id' attrObj ctx reply s))
                   = [NewConnection cfg, Connect, ExecSql q, Close]))"
  by (cases "connectionCfg decoder depth config ctx s")
     (simp add: modifyUser_def split: sum.splits db_reply.splits)

lemma createGroup_trace:
  "fst (snd (createGroup decoder depth config groupObj ctx reply s)) = [] \<or>
   (case reply of
      ConnectError m \<Rightarrow>
        (\<exists>cfg. fst (snd (createGroup decoder depth config groupObj ctx reply s)) = [NewConnection cfg, Connect])
    | _ \<Rightarrow>
        (\<exists>cfg q. fst (snd (createGroup decoder depth config groupObj ctx reply s))
                   = [NewConnection cfg, Connect, ExecSql q, Close]))"
  by (cases "connectionCfg decoder depth config ctx s")
     (simp add: createGroup_def Let_def split: sum.splits db_reply.splits)

text \<open>
  Claim C8, as stated, fails on the connection-establishment error: the handler rejects
  from the \<^verbatim>\<open>connect\<close> callback and has made no \<^verbatim>\<open>close\<close> call on the connection it
  created.
\<close>

theorem connect_error_no_close_counterexample:
  "fst (snd (invoke base64_decode 10 (HRef 0) (DeleteUser (Str ''jdoe'') Undefined)
               (ConnectError ''timeout'') example_store))
     = [NewConnection (HRef 6), Connect]
   \<and> Close \<notin> set (fst (snd (invoke base64_decode 10 (HRef 0) (DeleteUser (Str ''jdoe'') Undefined)
                              (ConnectError ''timeout'') example_store)))"
  by code_simp

text \<open>
  Claim C8, amended. For every handler invocation, the calls made on a connection are
  none at all (no connection was created), or, when the query runs, whether it succeeds
  or fails, \<^verbatim>\<open>new Connection\<close>, \<^verbatim>\<open>connect\<close>, \<^verbatim>\<open>execSql\<close> and last \<^verbatim>\<open>close\<close>: on the
  successful path and on the query-execution error path the connection is closed before
  the handler completes. On a connection-establishment error the calls are
  \<^verbatim>\<open>new Connection\<close> and \<^verbatim>\<open>connect\<close> only: no connection was established and none is
  closed.
\<close>

theorem connection_closed_after_query:
  "fst (snd (invoke decoder depth config call reply s)) = [] \<or>
   (case reply of
      ConnectError m \<Rightarrow>
        (\<exists>cfg. fst (snd (invoke decoder depth config call reply s)) = [NewConnection cfg, Connect])
    | _ \<Rightarrow>
        (\<exists>cfg q. fst (snd (invoke decoder depth config call reply s))
                   = [NewConnection cfg, Connect, ExecSql q, Close]))"
proof (cases call)
  case (GetUsers getObj ctx)
  show ?thesis unfolding GetUsers invoke.simps by (rule getUsers_trace)
next
  case (CreateUser userObj ctx)
  show ?thesis unfolding CreateUser invoke.simps by (rule createUser_trace)
next
  case (DeleteUser id' ctx)
  show ?thesis unfolding DeleteUser invoke.simps by (rule deleteUser_trace)
next
  case (ModifyUser id' attrObj ctx)
  show ?thesis unfolding ModifyUser invoke.simps by (rule modifyUser_trace)
next
  case (GetGroups getObj)
  show ?thesis unfolding GetGroups invoke.simps by (simp add: getGroups_def split: unit.split)
next
  case (CreateGroup groupObj ctx)
  show ?thesis unfolding CreateGroup invoke.simps by (rule createGroup_trace)
next
  case (DeleteGroup id')
  show ?thesis unfolding DeleteGroup invoke.simps by (simp add: deleteGroup_def)
next
  case (ModifyGroup id' attrObj)
  show ?thesis unfolding ModifyGroup invoke.simps by (simp add: modifyGroup_def)
qed

theorem connection_closed_after_query_witness:
  "fst (snd (invoke base64_decode 10 (HRef 0) (DeleteUser (Str ''jdoe'') Undefined)
               (RequestError ''deadlock'') example_store))
     = [NewConnection (HRef 6), Connect, ExecSql (''delete from [User] where UserID = 'jdoe'' @ [CHR 0x27]), Close]
   \<and> fst (snd (invoke base64_decode 10 (HRef 0) (GetUsers
               \<lparr>attribute = Undefined, operator = Undefined, value = Undefined, rawFilter = Undefined\<rparr> Undefined)
               (RequestDone []) example_store))
     = [NewConnection (HRef 6), Connect, ExecSql ''select * from [User]'', Close]"
proof -
  have 1: "fst (snd (invoke base64_decode 10 (HRef 0) (DeleteUser (Str ''jdoe'') Undefined)
               (RequestError ''deadlock'') example_store)) \<noteq> []"
    by code_simp
  have 2: "fst (snd (invoke base64_decode 10 (HRef 0) (GetUsers
               \<lparr>attribute = Undefined, operator = Undefined, value = Undefined, rawFilter = Undefined\<rparr> Undefined)
               (RequestDone []) example_store)) \<noteq> []"
    by code_simp
  from connection_closed_after_query [of base64_decode 10 "HRef 0" "DeleteUser (Str ''jdoe'') Undefined"
      "RequestError ''deadlock''" example_store] 1
  obtain cfg q where 3: "fst (snd (invoke base64_decode 10 (HRef 0) (DeleteUser (Str ''jdoe'') Undefined)
               (RequestError ''deadlock'') example_store)) = [NewConnection cfg, Connect, ExecSql q, Close]"
    by auto
  from connection_closed_after_query [of base64_decode 10 "HRef 0" "GetUsers
               \<lparr>attribute = Undefined, operator = Undefined, value = Undefined, rawFilter = Undefined\<rparr> Undefined"
      "RequestDone []" example_store] 2
  obtain cfg' q' where 4: "fst (snd (invoke base64_decode 10 (HRef 0) (GetUsers
               \<lparr>attribute = Undefined, operator = Undefined, value = Undefined, rawFilter = Undefined\<rparr> Undefined)
               (RequestDone []) example_store)) = [NewConnection cfg', Connect, ExecSql q', Close]"
    by auto
  have 5: "fst (snd (invoke base64_decode 10 (HRef 0) (DeleteUser (Str ''jdoe'') Undefined)
               (RequestError ''deadlock'') example_store))
     = [NewConnection (HRef 6), Connect, ExecSql (''delete from [User] where UserID = 'jdoe'' @ [CHR 0x27]), Close]"
    by code_simp
  have 6: "fst (snd (invoke base64_decode 10 (HRef 0) (GetUsers
               \<lparr>attribute = Undefined, operator = Undefined, value = Undefined, rawFilter = Undefined\<rparr> Undefined)
               (RequestDone []) example_store))
     = [NewConnection (HRef 6), Connect, ExecSql ''select * from [User]'', Close]"
    by code_simp
  from 3 4 5 6 show ?thesis by simp
qed

subsection \<open>The credentials written to the configuration of a call\<close>

lemma sbind_InrE:
  assumes "sbind m f s = (Inr y, s')"
  obtains x s1 where "m s = (Inr x, s1)" and "f x s1 = (Inr y, s')"
  using assms by (auto simp add: sbind_def split: prod.splits sum.splits)

lemma obj_read_store: "snd (obj_read v k s) = s"
  by (simp add: obj_read_def)

lemma obj_read2_store: "snd (obj_read2 v k1 k2 s) = s"
  by (auto simp add: obj_read2_def sbind_def obj_read_def split: prod.splits sum.splits)

lemma read_after_write:
  assumes "obj_write v k x s = (Inr u, s')"
  shows "fst (obj_read v k s') = Inr x"
    and "k' \<noteq> k \<Longrightarrow> fst (obj_read w k' s') = fst (obj_read w k' s)"
proof -
  from assms obtain a where v: "v = HRef a"
    and s': "s' = s\<lparr>objs := (objs s)(a := AList.update k x (objs s a))\<rparr>"
    by (cases v) (auto simp add: obj_write_def)
  show "fst (obj_read v k s') = Inr x"
    by (simp add: v s' obj_read_def update_conv')
  show "fst (obj_read w k' s') = fst (obj_read w k' s)" if "k' \<noteq> k"
    using that by (cases w) (simp_all add: s' obj_read_def update_conv')
qed

lemma obj_read2_alt:
  "fst (obj_read2 w k1 k2 s) =
     (case fst (obj_read w k1 s) of Inl e \<Rightarrow> Inl e | Inr o1 \<Rightarrow> fst (obj_read o1 k2 s))"
  by (cases w) (simp_all add: obj_read2_def sbind_def obj_read_def)

lemma obj_read3_alt:
  "fst (obj_read3 w k1 k2 k3 s) =
     (case fst (obj_read2 w k1 k2 s) of Inl e \<Rightarrow> Inl e | Inr o2 \<Rightarrow> fst (obj_read o2 k3 s))"
proof (cases "obj_read2 w k1 k2 s")
  case (Pair r s1)
  with obj_read2_store [of w k1 k2 s] have "s1 = s" by simp
  with Pair show ?thesis
    by (cases r) (simp_all add: obj_read3_def sbind_def)
qed

lemma read2_after_write:
  assumes "obj_write v k x s = (Inr u, s')" and "k1 \<noteq> k" and "k2 \<noteq> k"
  shows "fst (obj_read2 w k1 k2 s') = fst (obj_read2 w k1 k2 s)"
  by (simp add: obj_read2_alt read_after_write(2) [OF assms(1,2)] read_after_write(2) [OF assms(1,3)]
      split: sum.splits)

lemma write3_effect:
  assumes "obj_write3 c k1 k2 k3 x s = (Inr u, s')" and "k1 \<noteq> k3" and "k2 \<noteq> k3"
  shows "fst (obj_read3 c k1 k2 k3 s') = Inr x"
    and "k \<noteq> k3 \<Longrightarrow> fst (obj_read3 c k1 k2 k s') = fst (obj_read3 c k1 k2 k s)"
proof -
  from assms(1) obtain o2 s1 where r: "obj_read2 c k1 k2 s = (Inr o2, s1)"
    and w: "obj_write o2 k3 x s1 = (Inr u, s')"
    unfolding obj_write3_def by (rule sbind_InrE)
  from r obj_read2_store [of c k1 k2 s] have s1: "s1 = s" by simp
  from r have o2: "fst (obj_read2 c k1 k2 s) = Inr o2" by simp
  have same: "fst (obj_read2 c k1 k2 s') = Inr o2"
    using read2_after_write [OF w assms(2,3), of c] o2 s1 by simp
  show "fst (obj_read3 c k1 k2 k3 s') = Inr x"
    by (simp add: obj_read3_alt same read_after_write(1) [OF w])
  show "fst (obj_read3 c k1 k2 k s') = fst (obj_read3 c k1 k2 k s)" if "k \<noteq> k3"
    using read_after_write(2) [OF w that, of o2] s1
    by (simp add: obj_read3_alt same o2)
qed
lemma credentials_written:
  assumes w: "obj_write3 c ''authentication'' ''options'' ''password'' x s = (Inr u, s1)"
      and n: "(if b then obj_write3 c ''authentication'' ''options'' ''userName'' y else sreturn ()) s1
              = (Inr u', s')"
  shows "fst (obj_read3 c ''authentication'' ''options'' ''password'' s') = Inr x \<and>
         (b \<longrightarrow> fst (obj_read3 c ''authentication'' ''options'' ''userName'' s') = Inr y)"
proof (cases b)
  case True
  with n have n': "obj_write3 c ''authentication'' ''options'' ''userName'' y s1 = (Inr u', s')"
    by simp
  have "fst (obj_read3 c ''authentication'' ''options'' ''password'' s')
        = fst (obj_read3 c ''authentication'' ''options'' ''password'' s1)"
    by (rule write3_effect(2) [OF n']) simp_all
  also have "\<dots> = Inr x"
    by (rule write3_effect(1) [OF w]) simp_all
  finally have "fst (obj_read3 c ''authentication'' ''options'' ''password'' s') = Inr x" .
  moreover have "fst (obj_read3 c ''authentication'' ''options'' ''userName'' s') = Inr y"
    by (rule write3_effect(1) [OF n']) simp_all
  ultimately show ?thesis by simp
next
  case False
  with n have "s' = s1" by (simp add: sreturn_def)
  moreover have "fst (obj_read3 c ''authentication'' ''options'' ''password'' s1) = Inr x"
    by (rule write3_effect(1) [OF w]) simp_all
  ultimately show ?thesis using False by simp
qed

lemma connectionCfg_credentials:
  assumes run: "connectionCfg decoder depth config ctx s = (Inr cfg, s')"
      and auth: "truthy (ctx_authorization ctx)"
      and cred: "getCtxAuth decoder ctx = Inr (username, password)"
  shows "fst (obj_read3 cfg ''authentication'' ''options'' ''password'' s') = Inr (hval_of password) \<and>
         (username \<noteq> None \<and> username \<noteq> Some [] \<longrightarrow>
            fst (obj_read3 cfg ''authentication'' ''options'' ''userName'' s') = Inr (hval_of username))"
  using run unfolding connectionCfg_def
  apply (simp only: auth if_True)
  apply (elim sbind_InrE)
  apply (simp only: of_result_def cred prod.inject sum.inject)
  apply (elim conjE)
  apply hypsubst
  apply (simp only: prod.case)
  apply (elim sbind_InrE)
  apply (simp only: sreturn_def prod.inject sum.inject)
  apply (elim conjE)
  apply hypsubst
  apply (erule (1) credentials_written [unfolded sreturn_def])
  done
lemma getCtxAuth_username:
  "getCtxAuth decoder ctx = Inr (username, password) \<Longrightarrow> username \<noteq> Some []"
  by (auto simp add: getCtxAuth_def Let_def ebind_def
      split: if_splits jsval.splits option.splits prod.splits)

text \<open>
  Claim C7, as stated, fails for a \<^verbatim>\<open>Basic\<close> header whose decoded token has an empty
  username, such as \<^verbatim>\<open>Basic OnB3\<close> for \<^verbatim>\<open>:pw\<close>: the decoder does not return the
  decoded username and password, and the password written to the configuration of the
  call is the token as it stands.
\<close>

theorem getCtxAuth_Basic_counterexample:
  "split CHR '':'' (base64_decode ''OnB3'') = [[], ''pw'']
   \<and> getCtxAuth base64_decode (example_ctx ''Basic OnB3'') = Inr (None, Some ''OnB3'')
   \<and> getCtxAuth base64_decode (example_ctx ''Basic OnB3'') \<noteq> Inr (Some [], Some ''pw'')
   \<and> fst (obj_read3 (HRef 6) ''authentication'' ''options'' ''password''
             (snd (connectionCfg base64_decode 10 (HRef 0) (example_ctx ''Basic OnB3'') example_store)))
       = Inr (HStr ''OnB3'')"
  by code_simp

text \<open>
  Claim C7, amended. For every request context carrying an authorization header, the
  decoder splits the header at spaces into scheme and token. When the scheme is
  \<^verbatim>\<open>Basic\<close>, a token follows and the decoded token has at least one character before
  its first colon, the username is that text and the password the text between the first
  and the second colon (undefined without a colon). For any other scheme the token is
  the password, with no username. The handlers write the password, and the username when
  there is one, to \<^verbatim>\<open>authentication.options\<close> of the configuration copied for the call.
\<close>

theorem passthrough_credentials:
  assumes "ctx_authorization ctx = Str authorization" and "authorization \<noteq> []"
  shows "(split CHR '' '' authorization = ''Basic'' # token # rest \<and>
          takeWhile (\<lambda>c. c \<noteq> CHR '':'') (decoder token) \<noteq> [] \<longrightarrow>
            getCtxAuth decoder ctx = Inr (at_index (split CHR '':'' (decoder token)) 0,
                                          at_index (split CHR '':'' (decoder token)) 1) \<and>
            at_index (split CHR '':'' (decoder token)) 0
              = Some (takeWhile (\<lambda>c. c \<noteq> CHR '':'') (decoder token)))
       \<and> (at_index (split CHR '' '' authorization) 0 \<noteq> Some ''Basic'' \<longrightarrow>
            getCtxAuth decoder ctx = Inr (None, at_index (split CHR '' '' authorization) 1))
       \<and> (getCtxAuth decoder ctx = Inr (username, password) \<and>
          connectionCfg decoder depth config ctx s = (Inr cfg, s') \<longrightarrow>
            fst (obj_read3 cfg ''authentication'' ''options'' ''password'' s') = Inr (hval_of password) \<and>
            (username \<noteq> None \<longrightarrow>
               fst (obj_read3 cfg ''authentication'' ''options'' ''userName'' s') = Inr (hval_of username)))"
proof -
  have 1: "getCtxAuth decoder ctx = Inr (at_index (split CHR '':'' (decoder token)) 0,
                                          at_index (split CHR '':'' (decoder token)) 1) \<and>
           at_index (split CHR '':'' (decoder token)) 0
              = Some (takeWhile (\<lambda>c. c \<noteq> CHR '':'') (decoder token))"
    if "split CHR '' '' authorization = ''Basic'' # token # rest"
      and "takeWhile (\<lambda>c. c \<noteq> CHR '':'') (decoder token) \<noteq> []"
    using getCtxAuth_of_Basic [OF assms(1) that(1), of decoder] that(2) by (simp add: split_first)
  have 2: "getCtxAuth decoder ctx = Inr (None, at_index (split CHR '' '' authorization) 1)"
    if "at_index (split CHR '' '' authorization) 0 \<noteq> Some ''Basic''"
    using getCtxAuth_other [OF assms that] .
  have auth: "truthy (ctx_authorization ctx)"
    using assms by simp
  have 3: "fst (obj_read3 cfg ''authentication'' ''options'' ''password'' s') = Inr (hval_of password) \<and>
            (username \<noteq> None \<longrightarrow>
               fst (obj_read3 cfg ''authentication'' ''options'' ''userName'' s') = Inr (hval_of username))"
    if cred: "getCtxAuth decoder ctx = Inr (username, password)"
      and run: "connectionCfg decoder depth config ctx s = (Inr cfg, s')"
    using connectionCfg_credentials [OF run auth cred] getCtxAuth_username [OF cred] by simp
  from 1 2 3 show ?thesis by blast
qed

theorem passthrough_credentials_witness:
  "ctx_authorization (example_ctx ''Basic amRvZTpwdw=='') = Str ''Basic amRvZTpwdw==''
   \<and> base64_decode ''amRvZTpwdw=='' = ''jdoe:pw''
   \<and> getCtxAuth base64_decode (example_ctx ''Basic amRvZTpwdw=='') = Inr (Some ''jdoe'', Some ''pw'')
   \<and> getCtxAuth base64_decode (example_ctx ''Bearer tok'') = Inr (None, Some ''tok'')
   \<and> fst (obj_read3 (HRef 6) ''authentication'' ''options'' ''password''
             (snd (connectionCfg base64_decode 10 (HRef 0) (example_ctx ''Basic amRvZTpwdw=='') example_store)))
       = Inr (HStr ''pw'')
   \<and> fst (obj_read3 (HRef 6) ''authentication'' ''options'' ''userName''
             (snd (connectionCfg base64_decode 10 (HRef 0) (example_ctx ''Basic amRvZTpwdw=='') example_store)))
       = Inr (HStr ''jdoe'')"
proof -
  have h1: "ctx_authorization (example_ctx ''Basic amRvZTpwdw=='') = Str ''Basic amRvZTpwdw==''"
    by code_simp
  have h2: "''Basic amRvZTpwdw=='' \<noteq> []"
    by simp
  have h3: "split CHR '' '' ''Basic amRvZTpwdw=='' = ''Basic'' # ''amRvZTpwdw=='' # []"
    by code_simp
  have d: "base64_decode ''amRvZTpwdw=='' = ''jdoe:pw''"
    by code_simp
  have h4: "takeWhile (\<lambda>c. c \<noteq> CHR '':'') (base64_decode ''amRvZTpwdw=='') \<noteq> []"
    by (simp add: d)
  have b1: "ctx_authorization (example_ctx ''Bearer tok'') = Str ''Bearer tok''"
    by code_simp
  have b2: "''Bearer tok'' \<noteq> []"
    by simp
  have b3: "at_index (split CHR '' '' ''Bearer tok'') 0 \<noteq> Some ''Basic''"
    by code_simp
  have b4: "at_index (split CHR '' '' ''Bearer tok'') 1 = Some ''tok''"
    by code_simp
  have run: "connectionCfg base64_decode 10 (HRef 0) (example_ctx ''Basic amRvZTpwdw=='') example_store
       = (Inr (HRef 6),
          snd (connectionCfg base64_decode 10 (HRef 0) (example_ctx ''Basic amRvZTpwdw=='') example_store))"
  proof -
    have "fst (connectionCfg base64_decode 10 (HRef 0) (example_ctx ''Basic amRvZTpwdw=='') example_store)
          = Inr (HRef 6)"
      by code_simp
    then show ?thesis by (simp add: prod_eq_iff)
  qed
  note basic = passthrough_credentials [OF h1 h2, where decoder = base64_decode
      and token = "''amRvZTpwdw==''" and rest = "[]"
      and username = "Some ''jdoe''" and password = "Some ''pw''" and depth = 10 and config = "HRef 0"
      and s = example_store and cfg = "HRef 6"
      and s' = "snd (connectionCfg base64_decode 10 (HRef 0) (example_ctx ''Basic amRvZTpwdw=='') example_store)"]
  note bearer = passthrough_credentials [OF b1 b2, where decoder = base64_decode]
  from basic h3 h4 d have cred: "getCtxAuth base64_decode (example_ctx ''Basic amRvZTpwdw=='')
      = Inr (Some ''jdoe'', Some ''pw'')"
    by (simp add: split_first)
  from bearer b3 b4 have tok: "getCtxAuth base64_decode (example_ctx ''Bearer tok'') = Inr (None, Some ''tok'')"
    by simp
  from basic cred run have "fst (obj_read3 (HRef 6) ''authentication'' ''options'' ''password''
             (snd (connectionCfg base64_decode 10 (HRef 0) (example_ctx ''Basic amRvZTpwdw=='') example_store)))
       = Inr (HStr ''pw'')
     \<and> fst (obj_read3 (HRef 6) ''authentication'' ''options'' ''userName''
             (snd (connectionCfg base64_decode 10 (HRef 0) (example_ctx ''Basic amRvZTpwdw=='') example_store)))
       = Inr (HStr ''jdoe'')"
    by (simp add: hval_of_def)
  with h1 d cred tok show ?thesis by simp
qed

end
